theory Spec2Isabelle
  imports Complex_Main "HOL-Library.Multiset"
begin

section \<open>Data model\<close>

text \<open>
  The scraper works on JavaScript numbers. They are modelled as \<^typ>\<open>real\<close>: comparisons,
  \<open>Math.min\<close> and \<open>Math.max\<close> are exact in both worlds, and every concrete input used below
  has small integer coordinates, on which the floating-point operations of the source are
  exact as well. Rounding and \<open>NaN\<close> are outside the model, and so is overflow to
  \<open>Infinity\<close>, but for the placeholder of \<open>getRightElement\<close> (see there).

  The interfaces \<open>Element\<close> and \<open>Cell\<close> extend \<open>Rectangle\<close> in the source; the records below
  extend \<open>rectangle\<close> in the same way, so a function written for rectangles accepts
  elements and cells. The fields \<open>x\<close>, \<open>y\<close> of a rectangle are called \<open>rx\<close>, \<open>ry\<close>, those of a
  point \<open>px\<close>, \<open>py\<close>, and the \<open>text\<close> of an element is \<open>etext\<close>.
\<close>

record point =
  px :: real
  py :: real

record line =
  x1 :: real
  y1 :: real
  x2 :: real
  y2 :: real

record rectangle =
  rx :: real
  ry :: real
  width :: real
  height :: real

record element = rectangle +
  etext :: string

record cell = rectangle +
  elements :: "element list"

definition Tolerance :: real where
  "Tolerance = 3"

text \<open>\<open>Number.MAX_VALUE\<close>, the largest finite double.\<close>

definition MAX_VALUE :: real where
  "MAX_VALUE = 2 ^ 1024 - 2 ^ 971"

section \<open>Geometry kernel\<close>

text \<open>
  \<open>union\<close> of the source. The second argument of the \<open>Math.min\<close> that computes \<open>y\<close> is
  \<open>rectangle1.y\<close> again, as the source has it.
\<close>

definition union_rect :: "'a rectangle_scheme \<Rightarrow> 'b rectangle_scheme \<Rightarrow> rectangle" where
  "union_rect rectangle1 rectangle2 =
     (let x = min (rx rectangle1) (rx rectangle2);
          y = min (ry rectangle1) (ry rectangle1);
          w = max (max (rx rectangle1 + width rectangle1) (rx rectangle2 + width rectangle2) - x) 0;
          h = max (max (ry rectangle1 + height rectangle1) (ry rectangle2 + height rectangle2) - y) 0
      in \<lparr> rx = x, ry = y, width = w, height = h \<rparr>)"

definition intersectRectangles :: "'a rectangle_scheme \<Rightarrow> 'b rectangle_scheme \<Rightarrow> rectangle" where
  "intersectRectangles rectangle1 rectangle2 =
     (let xa = max (rx rectangle1) (rx rectangle2);
          ya = max (ry rectangle1) (ry rectangle2);
          xb = min (rx rectangle1 + width rectangle1) (rx rectangle2 + width rectangle2);
          yb = min (ry rectangle1 + height rectangle1) (ry rectangle2 + height rectangle2)
      in if xb \<ge> xa \<and> yb \<ge> ya
         then \<lparr> rx = xa, ry = ya, width = xb - xa, height = yb - ya \<rparr>
         else \<lparr> rx = 0, ry = 0, width = 0, height = 0 \<rparr>)"

text \<open>
  \<open>intersectLines\<close>: \<open>None\<close> is the source's \<open>undefined\<close>. The default value \<open>true\<close> of
  \<open>onlyWithinLineSegments\<close> is passed explicitly by the callers of the model.
\<close>

definition intersectLines :: "line \<Rightarrow> line \<Rightarrow> bool \<Rightarrow> point option" where
  "intersectLines line1 line2 onlyWithinLineSegments =
     (if (x1 line1 = x2 line1 \<and> y1 line1 = y2 line1) \<or> (x1 line2 = x2 line2 \<and> y1 line2 = y2 line2)
      then None
      else
        let denominator = (y2 line2 - y1 line2) * (x2 line1 - x1 line1)
                          - (x2 line1 - x1 line1) * (y2 line1 - y1 line1)
        in if denominator = 0 then None
           else
             let distance1 = ((x2 line2 - x1 line2) * (y1 line1 - y1 line2)
                              - (y2 line2 - y1 line2) * (x1 line1 - x1 line2)) / denominator;
                 distance2 = ((x2 line1 - x1 line1) * (y1 line1 - y1 line2)
                              - (y2 line1 - y1 line1) * (x1 line1 - x1 line2)) / denominator
             in if onlyWithinLineSegments
                   \<and> (distance1 < 0 \<or> distance1 > 1 \<or> distance2 < 0 \<or> distance2 > 1)
                then None
                else Some \<lparr> px = x1 line1 + distance1 * (x2 line1 - x1 line1),
                            py = y1 line1 + distance1 * (y2 line1 - y1 line1) \<rparr>)"

text \<open>
  \<open>rotate90Clockwise\<close> mutates its argument; the model returns the updated record, which
  keeps the fields of an element or a cell beyond those of the rectangle.
\<close>

definition rotate90Clockwise :: "'a rectangle_scheme \<Rightarrow> 'a rectangle_scheme" where
  "rotate90Clockwise rectangle =
     rectangle \<lparr> rx := - (ry rectangle + height rectangle), ry := rx rectangle,
                 width := height rectangle, height := width rectangle \<rparr>"

definition getArea :: "'a rectangle_scheme \<Rightarrow> real" where
  "getArea rectangle = width rectangle * height rectangle"

definition getPercentageOfElementInCell :: "element \<Rightarrow> cell \<Rightarrow> real" where
  "getPercentageOfElementInCell element cell =
     (let elementArea = getArea element;
          intersectionArea = getArea (intersectRectangles cell element)
      in if elementArea = 0 then 0 else (intersectionArea * 100) / elementArea)"

definition getPercentageOfElementInRectangle :: "element \<Rightarrow> rectangle \<Rightarrow> real" where
  "getPercentageOfElementInRectangle element rectangle =
     (let elementArea = getArea element;
          intersectionArea = getArea (intersectRectangles rectangle element)
      in if elementArea = 0 then 0 else (intersectionArea * 100) / elementArea)"

section \<open>Text\<close>

text \<open>
  Text is modelled as \<^typ>\<open>string\<close>: a list of 8-bit code units. The whitespace class
  \<open>\s\<close> of JavaScript is the one below on this range (tab, line feed, vertical tab, form
  feed, carriage return, space, no-break space), and \<open>toLowerCase\<close>, \<open>toUpperCase\<close> act on
  the letters of ASCII.
\<close>

definition isSpace :: "char \<Rightarrow> bool" where
  "isSpace c \<longleftrightarrow>
     c \<in> set [CHR 0x09, CHR 0x0A, CHR 0x0B, CHR 0x0C, CHR 0x0D, CHR 0x20, CHR 0xA0]"

definition toLowerChar :: "char \<Rightarrow> char" where
  "toLowerChar c =
     (case map_of (zip ''ABCDEFGHIJKLMNOPQRSTUVWXYZ'' ''abcdefghijklmnopqrstuvwxyz'') c of
        Some d \<Rightarrow> d | None \<Rightarrow> c)"

definition toUpperChar :: "char \<Rightarrow> char" where
  "toUpperChar c =
     (case map_of (zip ''abcdefghijklmnopqrstuvwxyz'' ''ABCDEFGHIJKLMNOPQRSTUVWXYZ'') c of
        Some d \<Rightarrow> d | None \<Rightarrow> c)"

definition toLowerCase :: "string \<Rightarrow> string" where
  "toLowerCase s = map toLowerChar s"

definition toUpperCase :: "string \<Rightarrow> string" where
  "toUpperCase s = map toUpperChar s"

definition trim :: "string \<Rightarrow> string" where
  "trim s = rev (dropWhile isSpace (rev (dropWhile isSpace s)))"

text \<open>\<open>s.replace(/\s/g, "")\<close>\<close>

definition removeSpaces :: "string \<Rightarrow> string" where
  "removeSpaces s = filter (\<lambda>c. \<not> isSpace c) s"

text \<open>\<open>s.replace(/[\s,\-_]/g, "")\<close>\<close>

definition condense :: "string \<Rightarrow> string" where
  "condense s = filter (\<lambda>c. \<not> (isSpace c \<or> c = CHR '','' \<or> c = CHR ''-'' \<or> c = CHR ''_'')) s"

text \<open>\<open>s.replace(/\s\s+/g, " ")\<close>: every maximal run of two or more whitespace characters
  becomes one space.\<close>

function collapseSpaces :: "string \<Rightarrow> string" where
  "collapseSpaces [] = []"
| "collapseSpaces [c] = [c]"
| "collapseSpaces (c # d # cs) =
     (if isSpace c \<and> isSpace d then CHR '' '' # collapseSpaces (dropWhile isSpace cs)
      else c # collapseSpaces (d # cs))"
  by pat_completeness auto
termination
  by (relation "measure length") (auto intro: le_imp_less_Suc length_dropWhile_le less_SucI)

text \<open>\<open>s.replace(/^:/, "")\<close>\<close>

definition removeLeadingColon :: "string \<Rightarrow> string" where
  "removeLeadingColon s = (case s of [] \<Rightarrow> [] | c # cs \<Rightarrow> if c = CHR '':'' then cs else s)"

definition startsWith :: "string \<Rightarrow> string \<Rightarrow> bool" where
  "startsWith s p \<longleftrightarrow> take (length p) s = p"

text \<open>\<open>s.charAt(0)\<close>: the first character as a string, the empty string when there is none.\<close>

definition charAt0 :: "string \<Rightarrow> string" where
  "charAt0 s = take 1 s"

text \<open>\<open>elements.map(element => element.text).join("")\<close>\<close>

definition joinText :: "element list \<Rightarrow> string" where
  "joinText es = concat (map etext es)"

subsection \<open>Approximate matching\<close>

text \<open>
  The Levenshtein distance, by the recurrence of Wagner and Fischer: the number of
  insertions, deletions and substitutions of single characters that turn one string into
  the other.
\<close>

fun editDistance :: "'a list \<Rightarrow> 'a list \<Rightarrow> nat" where
  "editDistance [] ys = length ys"
| "editDistance (x # xs) [] = length (x # xs)"
| "editDistance (x # xs) (y # ys) =
     min (min (editDistance xs (y # ys) + 1) (editDistance (x # xs) ys + 1))
         (editDistance xs ys + (if x = y then 0 else 1))"

text \<open>
  Modelled from the spec: \<open>didYouMean\<close> is the function of the library \<open>didyoumean2\<close>,
  which is not part of the repository. The spec describes its use as an "approximate
  match within edit-distance 1 (rank 1), or within edit-distance 2 (rank 2), against the
  normalized phrase". With the options the source passes (\<open>caseSensitive: false\<close>,
  \<open>trimSpaces: true\<close>, \<open>thresholdType: EDIT_DISTANCE\<close>, \<open>returnType: FIRST_CLOSEST_MATCH\<close>)
  and a match list of one phrase, it normalizes the input and the phrase and returns the
  phrase when their edit distance is at most the threshold, and \<open>null\<close> (here \<open>None\<close>)
  otherwise. The normalization trims the string, turns every run of whitespace into one
  space (\<open>squeezeSpaces\<close>) and puts it in lower case.
\<close>

function squeezeSpaces :: "string \<Rightarrow> string" where
  "squeezeSpaces [] = []"
| "squeezeSpaces (c # cs) =
     (if isSpace c then CHR '' '' # squeezeSpaces (dropWhile isSpace cs)
      else c # squeezeSpaces cs)"
  by pat_completeness auto
termination
  by (relation "measure length") (auto intro: le_imp_less_Suc length_dropWhile_le)

text \<open>Modelled from the spec: the normalization that \<open>didYouMean\<close> applies to its input and
  to the phrase.\<close>

definition normalizeString :: "string \<Rightarrow> string" where
  "normalizeString s = toLowerCase (squeezeSpaces (trim s))"

text \<open>Modelled from the spec: \<open>didYouMean(input, [ phrase ], { ..., threshold })\<close>, as
  described above.\<close>

definition didYouMean :: "string \<Rightarrow> string \<Rightarrow> nat \<Rightarrow> string option" where
  "didYouMean input phrase threshold =
     (if editDistance (normalizeString input) (normalizeString phrase) \<le> threshold
      then Some phrase else None)"

section \<open>Section segmenter\<close>

text \<open>
  \<open>calculateDistance\<close>, the squared distance from the middle of the right edge of the first
  element to the middle of the left edge of the second.
\<close>

definition calculateDistance :: "element \<Rightarrow> element \<Rightarrow> real" where
  "calculateDistance element1 element2 =
     (let point1x = rx element1 + width element1;
          point1y = ry element1 + height element1 / 2;
          point2x = rx element2;
          point2y = ry element2 + height element2 / 2
      in if point2x < point1x - width element1 / 5 then MAX_VALUE
         else (point2x - point1x) * (point2x - point1x) + (point2y - point1y) * (point2y - point1y))"

definition isVerticalOverlap :: "element \<Rightarrow> element \<Rightarrow> bool" where
  "isVerticalOverlap element1 element2 \<longleftrightarrow>
     ry element2 < ry element1 + height element1 \<and> ry element2 + height element2 > ry element1"

text \<open>
  \<open>getVerticalOverlapPercentage\<close>. For a second element of height zero the overlap is
  zero as well: the source divides zero by zero and every comparison of the resulting
  \<open>NaN\<close> is false, as is every comparison \<open>> 50\<close> of the \<open>0\<close> that the division gives here.
\<close>

definition getVerticalOverlapPercentage :: "element \<Rightarrow> element \<Rightarrow> real" where
  "getVerticalOverlapPercentage element1 element2 =
     (let ya = max (ry element1) (ry element2);
          yb = min (ry element1 + height element1) (ry element2 + height element2)
      in if yb < ya then 0 else ((yb - ya) * 100) / height element2)"

text \<open>
  \<open>getRightElement\<close>. The source starts from a placeholder \<open>closestElement\<close> with undefined
  text at \<open>(MAX_VALUE, MAX_VALUE)\<close> and returns \<open>undefined\<close> when the placeholder is still
  there at the end: the placeholder is \<open>None\<close> here. The squared distance to the placeholder
  overflows to \<open>Infinity\<close> in the source, so that the first element passing the other four
  tests always replaces it; \<open>closerThan\<close> says so.
\<close>

definition closerThan :: "element \<Rightarrow> element \<Rightarrow> element option \<Rightarrow> bool" where
  "closerThan element rightElement closestElement =
     (case closestElement of
        None \<Rightarrow> True
      | Some closest \<Rightarrow> calculateDistance element rightElement < calculateDistance element closest)"

definition getRightElement :: "element list \<Rightarrow> element \<Rightarrow> element option" where
  "getRightElement es element =
     foldl (\<lambda>closestElement rightElement.
              if isVerticalOverlap element rightElement
                 \<and> getVerticalOverlapPercentage element rightElement > 50
                 \<and> rx rightElement > rx element + width element - Tolerance
                 \<and> rx rightElement - (rx element + width element) < 30
                 \<and> closerThan element rightElement closestElement
              then Some rightElement else closestElement)
           None es"

text \<open>
  A match recorded by the loops of \<open>findStartElements\<close> and \<open>findTextBounds\<close>: the former
  records the element reached (\<open>element: rightElement\<close>), the latter a copy of the elements
  joined so far (\<open>elements: [...rightElements]\<close>); a match here holds both.
\<close>

record fuzzy_match =
  m_element :: element
  m_elements :: "element list"
  threshold :: nat
  m_text :: string

text \<open>
  The chain of tests on the joined text: equal to \<open>exact\<close> (threshold 0), else accepted by
  \<open>didYouMean\<close> against \<open>phrase\<close> with threshold 1, else with threshold 2, else no match.
\<close>

definition matchThreshold :: "string \<Rightarrow> string \<Rightarrow> string \<Rightarrow> nat option" where
  "matchThreshold exact phrase currentText =
     (if currentText = exact then Some 0
      else if didYouMean currentText phrase 1 \<noteq> None then Some 1
      else if didYouMean currentText phrase 2 \<noteq> None then Some 2
      else None)"

text \<open>
  The step of the loops of \<open>findStartElements\<close> and \<open>findTextBounds\<close> that records a match:
  a joined text at least as long as the phrase less two characters is put to the tests,
  and a match with the threshold found is pushed. The lengths are compared as integers,
  since \<open>length - 2\<close> is negative for a short phrase.
\<close>

definition recordMatch ::
  "string \<Rightarrow> string \<Rightarrow> element \<Rightarrow> element list \<Rightarrow> string \<Rightarrow> fuzzy_match list
     \<Rightarrow> fuzzy_match list" where
  "recordMatch exact phrase rightElement rightElements currentText matches =
     (if int (length currentText) \<ge> int (length phrase) - 2
      then (case matchThreshold exact phrase currentText of
              Some t \<Rightarrow> matches @ [\<lparr> m_element = rightElement, m_elements = rightElements,
                                      threshold = t, m_text = currentText \<rparr>]
            | None \<Rightarrow> matches)
      else matches)"

text \<open>
  The \<open>do ... while\<close> loop shared by \<open>findStartElements\<close> and \<open>findTextBounds\<close>: join up to
  five elements, each the right neighbour of the one before; stop when the joined text is
  longer than the phrase by more than two characters, and record a match otherwise.
\<close>

function fuzzyLoop ::
  "string \<Rightarrow> string \<Rightarrow> element list \<Rightarrow> element \<Rightarrow> element list \<Rightarrow> fuzzy_match list
     \<Rightarrow> fuzzy_match list" where
  "fuzzyLoop exact phrase es rightElement rightElements matches =
     (let rightElements' = rightElements @ [rightElement];
          currentText = toLowerCase (condense (joinText rightElements'))
      in if int (length currentText) > int (length phrase) + 2 then matches
         else
           let matches' = recordMatch exact phrase rightElement rightElements' currentText matches
           in case getRightElement es rightElement of
                None \<Rightarrow> matches'
              | Some next \<Rightarrow>
                  if length rightElements' < 5
                  then fuzzyLoop exact phrase es next rightElements' matches'
                  else matches')"
  by pat_completeness auto
termination
  by (relation "measure (\<lambda>(exact, phrase, es, rightElement, rightElements, matches).
                  5 - length rightElements)") auto

declare fuzzyLoop.simps [simp del]

text \<open>The \<open>reduce\<close> that chooses the best match: the lowest threshold, then the text whose
  trimmed length is closest to that of the phrase; the earlier match wins a tie.\<close>

definition betterMatch :: "nat \<Rightarrow> fuzzy_match option \<Rightarrow> fuzzy_match \<Rightarrow> fuzzy_match option" where
  "betterMatch len previous current =
     (case previous of
        None \<Rightarrow> Some current
      | Some p \<Rightarrow>
          if threshold current < threshold p
             \<or> (threshold current = threshold p
                 \<and> \<bar>int (length (trim (m_text current))) - int len\<bar>
                     < \<bar>int (length (trim (m_text p))) - int len\<bar>)
          then Some current else Some p)"

definition bestMatch :: "nat \<Rightarrow> fuzzy_match list \<Rightarrow> fuzzy_match option" where
  "bestMatch len matches = foldl (betterMatch len) None matches"

text \<open>
  \<open>Array.prototype.sort\<close> with a comparison function, as the insertion sort of V8: each
  element in turn moves left past the elements that compare greater than it. For a
  comparison function that is a total preorder this is the stable sort; the comparison of
  cells and elements within the tolerance is not transitive, and there the order is the
  one this procedure gives. The list \<open>r\<close> of \<open>insertSorted\<close> is the sorted prefix, reversed.
\<close>

fun insertSorted :: "('a \<Rightarrow> 'a \<Rightarrow> int) \<Rightarrow> 'a \<Rightarrow> 'a list \<Rightarrow> 'a list" where
  "insertSorted cmp e [] = [e]"
| "insertSorted cmp e (t # ts) = (if cmp t e > 0 then t # insertSorted cmp e ts else e # t # ts)"

definition sortBy :: "('a \<Rightarrow> 'a \<Rightarrow> int) \<Rightarrow> 'a list \<Rightarrow> 'a list" where
  "sortBy cmp xs = rev (foldl (\<lambda>r e. insertSorted cmp e r) [] xs)"

definition FindText :: string where
  "FindText = ''APPLICATIONNO:''"

definition yComparer :: "element \<Rightarrow> element \<Rightarrow> int" where
  "yComparer a b = (if ry a > ry b then 1 else if ry a < ry b then -1 else 0)"

definition findStartElements :: "element list \<Rightarrow> element list" where
  "findStartElements es =
     sortBy yComparer
       (concat (map (\<lambda>element.
                  case bestMatch (length FindText)
                         (fuzzyLoop (toLowerCase FindText) FindText es element [] []) of
                    None \<Rightarrow> []
                  | Some m \<Rightarrow> [m_element m])
               (filter (\<lambda>element. startsWith (toLowerCase (trim (etext element)))
                                               (toLowerCase (charAt0 FindText))) es)))"

text \<open>
  \<open>findTextBounds\<close>: all start elements share one list of matches; the rectangles of the
  elements of the best match are united from left to right.
\<close>

definition findTextBounds :: "element list \<Rightarrow> string \<Rightarrow> rectangle option" where
  "findTextBounds es searchText =
     (let condensedText = toLowerCase (condense searchText);
          firstCharacter = charAt0 condensedText;
          matches = foldl (\<lambda>ms element. fuzzyLoop condensedText condensedText es element [] ms) []
                      (filter (\<lambda>element. startsWith (toLowerCase (trim (etext element)))
                                                      firstCharacter) es)
      in case bestMatch (length condensedText) matches of
           None \<Rightarrow> None
         | Some m \<Rightarrow>
             (case m_elements m of
                [] \<Rightarrow> None
              | e # rest \<Rightarrow> Some (foldl union_rect (rectangle.truncate e) rest)))"

definition getRowTop :: "element list \<Rightarrow> element \<Rightarrow> real" where
  "getRowTop es startElement =
     foldl (\<lambda>top element.
              if ry element < ry startElement + height startElement
                 \<and> ry element + height element > ry startElement
                 \<and> getVerticalOverlapPercentage startElement element > 50
                 \<and> ry element < top
              then ry element else top)
           (ry startElement) es"

section \<open>Field extractor\<close>

text \<open>
  Reading a property of \<open>undefined\<close> raises a \<open>TypeError\<close> in the source; functions that can
  raise return \<open>Inl TypeError\<close> there.
\<close>

datatype error = TypeError

record development_application =
  applicationNumber :: string
  address :: string
  description :: string
  informationUrl :: string
  commentUrl :: string
  scrapeDate :: string
  receivedDate :: string

definition CommentUrl :: string where
  "CommentUrl = ''mailto:admin@wudinna.sa.gov.au''"

text \<open>\<open>cells.find(cell => cell.elements.map(element => element.text).join("")
  .replace(/\s/g, "").toUpperCase() === heading)\<close>\<close>

definition findHeadingCell :: "cell list \<Rightarrow> string \<Rightarrow> cell option" where
  "findHeadingCell cells heading =
     find (\<lambda>cell. toUpperCase (removeSpaces (joinText (elements cell))) = heading) cells"

text \<open>The first cell whose top left corner is within the tolerance of the top right corner
  of the heading cell.\<close>

definition findRightCell :: "cell list \<Rightarrow> cell \<Rightarrow> cell option" where
  "findRightCell cells headingCell =
     find (\<lambda>cell. (rx headingCell + width headingCell - rx cell)\<^sup>2 + (ry headingCell - ry cell)\<^sup>2
                     < Tolerance\<^sup>2) cells"

text \<open>
  The local variable \<open>description\<close> of \<open>parseApplicationElements\<close>: empty without a heading
  cell; with one, the text of the cell to its right, whose \<open>elements\<close> are read whether or
  not \<open>find\<close> found a cell.
\<close>

definition descriptionText :: "cell list \<Rightarrow> error + string" where
  "descriptionText cells =
     (case findHeadingCell cells ''DESCRIPTION:'' of
        None \<Rightarrow> Inr []
      | Some descriptionHeadingCell \<Rightarrow>
          (case findRightCell cells descriptionHeadingCell of
             None \<Rightarrow> Inl TypeError
           | Some descriptionCell \<Rightarrow>
               Inr (collapseSpaces (trim (joinText (elements descriptionCell))))))"

text \<open>
  The received date. \<open>moment\<close> is a library outside the repository: the parameter
  \<open>parseDate\<close> stands for \<open>moment(text, [ "D/M/YYYY", "D/M/YY" ], true)\<close> followed by
  \<open>format("YYYY-MM-DD")\<close>, and is \<open>None\<close> where the parsed date is not valid.
\<close>

definition receivedDateText :: "(string \<Rightarrow> string option) \<Rightarrow> cell list \<Rightarrow> error + string" where
  "receivedDateText parseDate cells =
     (case findHeadingCell cells ''DATELODGED:'' of
        None \<Rightarrow> Inr []
      | Some dateLodgedHeadingCell \<Rightarrow>
          (case findRightCell cells dateLodgedHeadingCell of
             None \<Rightarrow> Inl TypeError
           | Some receivedDateCell \<Rightarrow>
               Inr (case parseDate (removeSpaces (joinText (elements receivedDateCell))) of
                      None \<Rightarrow> [] | Some d \<Rightarrow> d)))"

text \<open>
  \<open>parseApplicationElements\<close>. \<open>Inr None\<close> is the return of \<open>undefined\<close> (the section is
  ignored, with a message on the console), \<open>Inr (Some a)\<close> the return of an application.
  \<open>today\<close> stands for \<open>moment().format("YYYY-MM-DD")\<close>.
\<close>

definition parseApplicationElements ::
  "(string \<Rightarrow> string option) \<Rightarrow> string \<Rightarrow> element list \<Rightarrow> cell list \<Rightarrow> string
     \<Rightarrow> error + development_application option" where
  "parseApplicationElements parseDate today es cells url =
     (case findTextBounds es ''APPLICATION NO:'' of
        None \<Rightarrow> Inr None
      | Some applicationNumberHeadingBounds \<Rightarrow>
          let applicationNumberBounds =
                \<lparr> rx = rx applicationNumberHeadingBounds + width applicationNumberHeadingBounds,
                  ry = ry applicationNumberHeadingBounds,
                  width = MAX_VALUE,
                  height = height applicationNumberHeadingBounds \<rparr>;
              number = removeLeadingColon (removeSpaces (joinText
                         (filter (\<lambda>element.
                            getPercentageOfElementInRectangle element applicationNumberBounds > 10) es)))
          in if number = [] then Inr None
             else
               (case descriptionText cells of
                  Inl e \<Rightarrow> Inl e
                | Inr descr \<Rightarrow>
                    (case receivedDateText parseDate cells of
                       Inl e \<Rightarrow> Inl e
                     | Inr received \<Rightarrow>
                         (case findHeadingCell cells ''DEVELOPMENTADDRESS:'' of
                            None \<Rightarrow> Inr None
                          | Some developmentAddressHeadingCell \<Rightarrow>
                              (case findRightCell cells developmentAddressHeadingCell of
                                 None \<Rightarrow> Inl TypeError
                               | Some addressCell \<Rightarrow>
                                   let addr = collapseSpaces (trim (joinText (elements addressCell)))
                                   in if addr = [] then Inr None
                                      else Inr (Some
                                        \<lparr> applicationNumber = number,
                                          address = addr,
                                          description = (if trim descr \<noteq> [] then descr
                                                         else ''NO DESCRIPTION PROVIDED''),
                                          informationUrl = url,
                                          commentUrl = CommentUrl,
                                          scrapeDate = today,
                                          receivedDate = received \<rparr>))))))"

section \<open>Grid reconstructor\<close>

text \<open>
  The part of \<open>parseCells\<close> that follows the walk over the drawing operators. Its input is
  the array \<open>lines\<close> of that walk: the rectangles that were filled, in the order of the
  operators.
\<close>

definition isHorizontalLine :: "rectangle \<Rightarrow> bool" where
  "isHorizontalLine l \<longleftrightarrow> height l \<le> Tolerance \<and> width l \<ge> 10"

definition isVerticalLine :: "rectangle \<Rightarrow> bool" where
  "isVerticalLine l \<longleftrightarrow> \<not> isHorizontalLine l \<and> width l \<le> Tolerance \<and> height l \<ge> 10"

definition horizontalLineOf :: "rectangle \<Rightarrow> line" where
  "horizontalLineOf l = \<lparr> x1 = rx l, y1 = ry l, x2 = rx l + width l, y2 = ry l \<rparr>"

definition verticalLineOf :: "rectangle \<Rightarrow> line" where
  "verticalLineOf l = \<lparr> x1 = rx l, y1 = ry l, x2 = rx l, y2 = ry l + height l \<rparr>"

definition horizontalLineComparer :: "line \<Rightarrow> line \<Rightarrow> int" where
  "horizontalLineComparer a b = (if y1 a > y1 b then 1 else if y1 a < y1 b then -1 else 0)"

definition verticalLineComparer :: "line \<Rightarrow> line \<Rightarrow> int" where
  "verticalLineComparer a b = (if x1 a > x1 b then 1 else if x1 a < x1 b then -1 else 0)"

text \<open>\<open>points.some(point => (x - point.x) ** 2 + (y - point.y) ** 2 < Tolerance ** 2)\<close>\<close>

definition nearPoint :: "point list \<Rightarrow> real \<Rightarrow> real \<Rightarrow> bool" where
  "nearPoint points x y \<longleftrightarrow> list_ex (\<lambda>p. (x - px p)\<^sup>2 + (y - py p)\<^sup>2 < Tolerance\<^sup>2) points"

definition addPoint :: "point list \<Rightarrow> real \<Rightarrow> real \<Rightarrow> point list" where
  "addPoint points x y = (if nearPoint points x y then points else points @ [\<lparr> px = x, py = y \<rparr>])"

definition haveSharedPoints :: "line \<Rightarrow> line \<Rightarrow> bool" where
  "haveSharedPoints horizontalLine verticalLine \<longleftrightarrow>
     (x1 verticalLine - x1 horizontalLine)\<^sup>2 + (y1 verticalLine - y1 horizontalLine)\<^sup>2 < Tolerance\<^sup>2
     \<or> (x1 verticalLine - x2 horizontalLine)\<^sup>2 + (y1 verticalLine - y2 horizontalLine)\<^sup>2 < Tolerance\<^sup>2
     \<or> (x2 verticalLine - x1 horizontalLine)\<^sup>2 + (y2 verticalLine - y1 horizontalLine)\<^sup>2 < Tolerance\<^sup>2
     \<or> (x2 verticalLine - x2 horizontalLine)\<^sup>2 + (y2 verticalLine - y2 horizontalLine)\<^sup>2 < Tolerance\<^sup>2"

text \<open>The body of the inner loop over the pairs of a horizontal and a vertical line.\<close>

definition addLinePoints :: "line \<Rightarrow> point list \<Rightarrow> line \<Rightarrow> point list" where
  "addLinePoints horizontalLine points verticalLine =
     (let intersectionPoint = intersectLines horizontalLine verticalLine True;
          points1 = (case intersectionPoint of
                       None \<Rightarrow> points
                     | Some p \<Rightarrow> addPoint points (px p) (py p))
      in if haveSharedPoints horizontalLine verticalLine \<or> intersectionPoint \<noteq> None
         then addPoint (addPoint (addPoint (addPoint points1
                (x1 horizontalLine) (y1 horizontalLine))
                (x2 horizontalLine) (y2 horizontalLine))
                (x1 verticalLine) (y1 verticalLine))
                (x2 verticalLine) (y2 verticalLine)
         else points1)"

definition gridPoints :: "line list \<Rightarrow> line list \<Rightarrow> point list" where
  "gridPoints horizontalLines verticalLines =
     foldl (\<lambda>points horizontalLine. foldl (addLinePoints horizontalLine) points verticalLines)
           [] horizontalLines"

definition closestRightPoint :: "point list \<Rightarrow> point \<Rightarrow> point option" where
  "closestRightPoint points p =
     foldl (\<lambda>previous current.
              if \<bar>py current - py p\<bar> < Tolerance \<and> px current > px p
                 \<and> (case previous of None \<Rightarrow> True
                     | Some q \<Rightarrow> px current - px p < px q - px p)
              then Some current else previous)
           None points"

definition closestDownPoint :: "point list \<Rightarrow> point \<Rightarrow> point option" where
  "closestDownPoint points p =
     foldl (\<lambda>previous current.
              if \<bar>px current - px p\<bar> < Tolerance \<and> py current > py p
                 \<and> (case previous of None \<Rightarrow> True
                     | Some q \<Rightarrow> py current - py p < py q - py p)
              then Some current else previous)
           None points"

definition cellAt :: "point list \<Rightarrow> point \<Rightarrow> cell list" where
  "cellAt points p =
     (case closestRightPoint points p of
        None \<Rightarrow> []
      | Some r \<Rightarrow>
          (case closestDownPoint points p of
             None \<Rightarrow> []
           | Some d \<Rightarrow> [\<lparr> rx = px p, ry = py p, width = px r - px p, height = py d - py p,
                           elements = [] \<rparr>]))"

definition cellComparer :: "cell \<Rightarrow> cell \<Rightarrow> int" where
  "cellComparer a b =
     (if \<bar>ry a - ry b\<bar> < Tolerance
      then (if rx a > rx b then 1 else if rx a < rx b then -1 else 0)
      else (if ry a > ry b then 1 else -1))"

definition parseCells :: "rectangle list \<Rightarrow> cell list" where
  "parseCells lines =
     (let horizontalLines = sortBy horizontalLineComparer
                              (map horizontalLineOf (filter isHorizontalLine lines));
          verticalLines = sortBy verticalLineComparer
                            (map verticalLineOf (filter isVerticalLine lines));
          points = gridPoints horizontalLines verticalLines
      in sortBy cellComparer (concat (map (cellAt points) points)))"

section \<open>Text normalizer\<close>

text \<open>A text run of a page: its string, the entries 2 to 5 of its transform (the entries
  the source reads) and its width.\<close>

record text_item =
  str :: string
  transform2 :: real
  transform3 :: real
  transform4 :: real
  transform5 :: real
  item_width :: real

definition parseElements :: "text_item list \<Rightarrow> element list" where
  "parseElements items =
     map (\<lambda>item.
            let workaroundHeight = sqrt (transform2 item * transform2 item
                                         + transform3 item * transform3 item)
            in \<lparr> rx = transform4 item, ry = transform5 item, width = item_width item,
                 height = workaroundHeight, etext = str item \<rparr>)
         items"

section \<open>Pages and documents\<close>

text \<open>
  A decoded page: the rectangles filled by its drawing operators, its text runs and its
  rotation in degrees. A document is the list of its pages.
\<close>

record page =
  lineCandidates :: "rectangle list"
  textItems :: "text_item list"
  rotate :: int

definition invertY :: "'a rectangle_scheme \<Rightarrow> 'a rectangle_scheme" where
  "invertY r = r \<lparr> ry := - (ry r + height r) \<rparr>"

text \<open>The adjustment of an element of a page rotated by 90 degrees: rotated, then
  \<open>[y, width, height] = [y - width, height, width]\<close>.\<close>

definition rotateElement :: "element \<Rightarrow> element" where
  "rotateElement element =
     (let e = rotate90Clockwise element
      in e \<lparr> ry := ry e - width e, width := height e, height := width e \<rparr>)"

definition elementComparer :: "element \<Rightarrow> element \<Rightarrow> int" where
  "elementComparer a b =
     (if \<bar>ry a - ry b\<bar> < Tolerance
      then (if rx a > rx b then 1 else if rx a < rx b then -1 else 0)
      else (if ry a > ry b then 1 else -1))"

text \<open>
  One turn of the loop that allocates each element to an owning cell: the element is
  pushed on the first cell of the array that holds more than half of it, if there is one.
\<close>

fun allocate :: "element \<Rightarrow> cell list \<Rightarrow> cell list" where
  "allocate element [] = []"
| "allocate element (c # cs) =
     (if getPercentageOfElementInCell element c > 50
      then c \<lparr> elements := elements c @ [element] \<rparr> # cs
      else c # allocate element cs)"

definition allocateElements :: "element list \<Rightarrow> cell list \<Rightarrow> cell list" where
  "allocateElements es cells = foldl (\<lambda>cs element. allocate element cs) cells es"

text \<open>The cells and the elements of a page, as they stand when the sections are formed.\<close>

definition pageCells :: "page \<Rightarrow> cell list" where
  "pageCells pg =
     (let cells = map invertY (parseCells (lineCandidates pg));
          cells = (if rotate pg = 90 then map rotate90Clockwise cells else cells)
      in sortBy cellComparer cells)"

definition pageElements :: "page \<Rightarrow> element list" where
  "pageElements pg =
     (let es = map invertY (parseElements (textItems pg));
          es = (if rotate pg = 90 then map rotateElement es else es)
      in sortBy elementComparer es)"

record application_group =
  startElement :: element
  group_elements :: "element list"
  group_cells :: "cell list"

definition raisedStartElement :: "element \<Rightarrow> element" where
  "raisedStartElement s =
     \<lparr> rx = rx s, ry = ry s - height s / 2, width = width s, height = height s, etext = etext s \<rparr>"

definition rowTop :: "element list \<Rightarrow> element list \<Rightarrow> nat \<Rightarrow> real" where
  "rowTop es startElements index = getRowTop es (raisedStartElement (startElements ! index))"

definition nextRowTop :: "element list \<Rightarrow> element list \<Rightarrow> nat \<Rightarrow> real" where
  "nextRowTop es startElements index =
     (if index + 1 < length startElements then getRowTop es (startElements ! (index + 1))
      else MAX_VALUE)"

definition applicationElementGroup ::
  "element list \<Rightarrow> cell list \<Rightarrow> element list \<Rightarrow> nat \<Rightarrow> application_group" where
  "applicationElementGroup es cells startElements index =
     \<lparr> startElement = startElements ! index,
       group_elements = filter (\<lambda>element. ry element \<ge> rowTop es startElements index
                                  \<and> ry element + height element < nextRowTop es startElements index) es,
       group_cells = filter (\<lambda>cell. ry cell \<ge> rowTop es startElements index
                               \<and> ry cell + height cell < nextRowTop es startElements index) cells \<rparr>"

text \<open>The loop over \<open>index\<close> from 0 to \<open>startElements.length - 1\<close>.\<close>

definition applicationElementGroups :: "element list \<Rightarrow> cell list \<Rightarrow> application_group list" where
  "applicationElementGroups es cells =
     (let startElements = findStartElements es
      in map (applicationElementGroup es cells startElements) [0..<length startElements])"

text \<open>
  The loop over the groups of a page. \<open>das\<close> is the array \<open>developmentApplications\<close> of
  \<open>parsePdf\<close>, which lives across the pages of the document; an error raised by
  \<open>parseApplicationElements\<close> leaves the loop, the page and \<open>parsePdf\<close>.
\<close>

fun parseGroups ::
  "(string \<Rightarrow> string option) \<Rightarrow> string \<Rightarrow> string \<Rightarrow> application_group list
     \<Rightarrow> development_application list \<Rightarrow> error + development_application list" where
  "parseGroups parseDate today url [] das = Inr das"
| "parseGroups parseDate today url (g # gs) das =
     (case parseApplicationElements parseDate today (group_elements g) (group_cells g) url of
        Inl e \<Rightarrow> Inl e
      | Inr None \<Rightarrow> parseGroups parseDate today url gs das
      | Inr (Some da) \<Rightarrow>
          if list_ex (\<lambda>other. applicationNumber other = applicationNumber da) das
          then parseGroups parseDate today url gs das
          else parseGroups parseDate today url gs (das @ [da]))"

definition pageGroups :: "page \<Rightarrow> application_group list" where
  "pageGroups pg =
     (let es = pageElements pg
      in applicationElementGroups es (allocateElements es (pageCells pg)))"

fun parsePages ::
  "(string \<Rightarrow> string option) \<Rightarrow> string \<Rightarrow> string \<Rightarrow> page list
     \<Rightarrow> development_application list \<Rightarrow> error + development_application list" where
  "parsePages parseDate today url [] das = Inr das"
| "parsePages parseDate today url (pg # pgs) das =
     (case parseGroups parseDate today url (pageGroups pg) das of
        Inl e \<Rightarrow> Inl e
      | Inr das' \<Rightarrow> parsePages parseDate today url pgs das')"

text \<open>\<open>parsePdf\<close>: at most 500 pages are read.\<close>

definition parsePdf ::
  "(string \<Rightarrow> string option) \<Rightarrow> string \<Rightarrow> string \<Rightarrow> page list
     \<Rightarrow> error + development_application list" where
  "parsePdf parseDate today url pages = parsePages parseDate today url (take 500 pages) []"

section \<open>Vocabulary of the claims\<close>

text \<open>A point lies in a rectangle when it lies between its edges, the edges included.\<close>

definition inside :: "point \<Rightarrow> 'a rectangle_scheme \<Rightarrow> bool" where
  "inside p r \<longleftrightarrow> rx r \<le> px p \<and> px p \<le> rx r + width r \<and> ry r \<le> py p \<and> py p \<le> ry r + height r"

text \<open>Two lines are parallel when the cross product of their directions vanishes.\<close>

definition parallel :: "line \<Rightarrow> line \<Rightarrow> bool" where
  "parallel l m \<longleftrightarrow> (x2 l - x1 l) * (y2 m - y1 m) - (y2 l - y1 l) * (x2 m - x1 m) = 0"

definition zero_length :: "line \<Rightarrow> bool" where
  "zero_length l \<longleftrightarrow> x1 l = x2 l \<and> y1 l = y2 l"

text \<open>
  The element \<open>e\<close> has the cell at index \<open>i\<close> as its first owner: more than half of it
  lies in that cell, and in no cell before it.
\<close>

definition firstOwner :: "element \<Rightarrow> cell list \<Rightarrow> nat \<Rightarrow> bool" where
  "firstOwner e cells i \<longleftrightarrow>
     getPercentageOfElementInCell e (cells ! i) > 50
     \<and> (\<forall>k<i. \<not> getPercentageOfElementInCell e (cells ! k) > 50)"

text \<open>A comparison function that orders by a key.\<close>

definition comparesKey :: "('a \<Rightarrow> 'a \<Rightarrow> int) \<Rightarrow> ('a \<Rightarrow> real) \<Rightarrow> bool" where
  "comparesKey cmp f \<longleftrightarrow> (\<forall>a b. cmp a b > 0 \<longleftrightarrow> f a > f b)"

text \<open>
  The element \<open>e\<close> counts for the row of the start element \<open>s\<close> in \<open>getRowTop\<close>: the two
  overlap vertically, by more than half of the height of \<open>e\<close>.
\<close>

definition inRow :: "element \<Rightarrow> element \<Rightarrow> bool" where
  "inRow s e \<longleftrightarrow> ry e < ry s + height s \<and> ry e + height e > ry s
                 \<and> getVerticalOverlapPercentage s e > 50"

text \<open>
  A ruled grid: \<open>hcount\<close> horizontal and \<open>vcount\<close> vertical lines, evenly spaced, drawn as
  rectangles of thickness \<open>hthick\<close> and \<open>vthick\<close>. The horizontal lines span the vertical
  ones and the vertical lines the horizontal ones. \<open>ruled\<close> holds when there are at least
  two lines of each kind, the spacing exceeds the tolerance, no line is thicker than the
  tolerance and every line is at least 10 long.
\<close>

record ruled_grid =
  hcount :: nat
  vcount :: nat
  left :: real
  bottom :: real
  xstep :: real
  ystep :: real
  hthick :: real
  vthick :: real

definition gridWidth :: "ruled_grid \<Rightarrow> real" where
  "gridWidth g = real (vcount g - 1) * xstep g"

definition gridHeight :: "ruled_grid \<Rightarrow> real" where
  "gridHeight g = real (hcount g - 1) * ystep g"




definition ruled :: "ruled_grid \<Rightarrow> bool" where
  "ruled g \<longleftrightarrow>
     2 \<le> hcount g \<and> 2 \<le> vcount g
     \<and> Tolerance < xstep g \<and> Tolerance < ystep g
     \<and> 0 \<le> hthick g \<and> hthick g \<le> Tolerance
     \<and> 0 \<le> vthick g \<and> vthick g \<le> Tolerance
     \<and> 10 \<le> gridWidth g \<and> 10 \<le> gridHeight g"

text \<open>The crossing of the vertical line \<open>j\<close> and the horizontal line \<open>i\<close>, the set of all
  crossings, and the lines as \<open>parseCells\<close> classifies them.\<close>

definition pt :: "ruled_grid \<Rightarrow> nat \<Rightarrow> nat \<Rightarrow> point" where
  "pt g j i = \<lparr> px = left g + real j * xstep g, py = bottom g + real i * ystep g \<rparr>"





text \<open>
  The text that the loop of \<open>findStartElements\<close> compares with the label for a sequence of
  elements: their texts joined, without white space, commas, hyphens and underscores, in
  lower case. Its distance to the label is the edit distance to the label in lower case.
\<close>

definition anchorText :: "element list \<Rightarrow> string" where
  "anchorText rs = toLowerCase (condense (joinText rs))"

definition labelDistance :: "element list \<Rightarrow> nat" where
  "labelDistance rs = editDistance (anchorText rs) (toLowerCase FindText)"

text \<open>
  A sequence in which each element is the right neighbour, as \<open>getRightElement\<close> finds it
  among the elements \<open>es\<close> of the page, of the element before it: the sequences that the
  loop walks from a start element.
\<close>

fun rightChain :: "element list \<Rightarrow> element list \<Rightarrow> bool" where
  "rightChain es [] = True"
| "rightChain es [e] = True"
| "rightChain es (e # f # rs) \<longleftrightarrow> getRightElement es e = Some f \<and> rightChain es (f # rs)"

text \<open>
  The match that the loop records for a sequence: its last element, the sequence itself,
  the distance to the label as the rank (the field \<open>threshold\<close>), and the text compared.
\<close>

definition rankedMatch :: "element list \<Rightarrow> fuzzy_match" where
  "rankedMatch rs = \<lparr> m_element = last rs, m_elements = rs, threshold = labelDistance rs,
                       m_text = anchorText rs \<rparr>"

text \<open>
  The loop stands at the element \<open>r\<close> with the elements \<open>rs\<close> behind it. The sequence \<open>c\<close>
  continues \<open>rs\<close> to a sequence that the loop records when \<open>c\<close> starts at \<open>r\<close> and walks to
  the right, \<open>rs @ c\<close> has at most five elements, and \<open>rs @ c\<close> is within distance 2 of
  the label.
\<close>

definition continues :: "element list \<Rightarrow> element \<Rightarrow> element list \<Rightarrow> element list \<Rightarrow> bool" where
  "continues es r rs c \<longleftrightarrow>
     c \<noteq> [] \<and> hd c = r \<and> rightChain es c \<and> length (rs @ c) \<le> 5 \<and> labelDistance (rs @ c) \<le> 2"

section \<open>Sample pages\<close>

text \<open>
  Concrete pages on which the functions are run below. Coordinates are those of the PDF
  (the y axis points up) for pages, and those after the inversion for element lists.
\<close>

definition hline :: "real \<Rightarrow> real \<Rightarrow> real \<Rightarrow> rectangle" where
  "hline x y w = \<lparr> rx = x, ry = y, width = w, height = 1 \<rparr>"

definition vline :: "real \<Rightarrow> real \<Rightarrow> real \<Rightarrow> rectangle" where
  "vline x y h = \<lparr> rx = x, ry = y, width = 1, height = h \<rparr>"

text \<open>A text run of height 10 at \<open>(x, y)\<close>.\<close>

definition item :: "string \<Rightarrow> real \<Rightarrow> real \<Rightarrow> real \<Rightarrow> text_item" where
  "item s x y w =
     \<lparr> str = s, transform2 = 0, transform3 = 10, transform4 = x, transform5 = y, item_width = w \<rparr>"

definition el :: "string \<Rightarrow> real \<Rightarrow> real \<Rightarrow> real \<Rightarrow> real \<Rightarrow> element" where
  "el s x y w h = \<lparr> rx = x, ry = y, width = w, height = h, etext = s \<rparr>"

definition cl :: "real \<Rightarrow> real \<Rightarrow> real \<Rightarrow> real \<Rightarrow> element list \<Rightarrow> cell" where
  "cl x y w h es = \<lparr> rx = x, ry = y, width = w, height = h, elements = es \<rparr>"

text \<open>
  A page of a register: the application number as free text, and below it a table of
  three rows and two columns with the labels on the left. The description is left empty.
\<close>

definition samplePage :: page where
  "samplePage =
     \<lparr> lineCandidates = [hline 0 0 300, hline 0 20 300, hline 0 40 300, hline 0 60 300,
                          vline 0 0 60, vline 100 0 60, vline 300 0 60],
       textItems = [item ''APPLICATION NO:'' 5 70 80, item ''123/45'' 90 70 40,
                    item ''DESCRIPTION:'' 5 45 60,
                    item ''DATE LODGED:'' 5 25 60, item ''1/2/2019'' 105 25 50,
                    item ''DEVELOPMENT ADDRESS:'' 5 5 90, item ''1 Main Street'' 105 5 80],
       rotate = 0 \<rparr>"

definition sampleElements :: "element list" where
  "sampleElements =
     [el ''APPLICATION NO:'' 5 (-80) 80 10, el ''123/45'' 90 (-80) 40 10,
      el ''DESCRIPTION:'' 5 (-55) 60 10,
      el ''DATE LODGED:'' 5 (-35) 60 10, el ''1/2/2019'' 105 (-35) 50 10,
      el ''DEVELOPMENT ADDRESS:'' 5 (-15) 90 10, el ''1 Main Street'' 105 (-15) 80 10]"

definition sampleGrid :: "cell list" where
  "sampleGrid =
     [cl 0 (-60) 100 20 [], cl 100 (-60) 200 20 [],
      cl 0 (-40) 100 20 [], cl 100 (-40) 200 20 [],
      cl 0 (-20) 100 20 [], cl 100 (-20) 200 20 []]"

definition sampleCells :: "cell list" where
  "sampleCells =
     [cl 0 (-60) 100 20 [el ''DESCRIPTION:'' 5 (-55) 60 10], cl 100 (-60) 200 20 [],
      cl 0 (-40) 100 20 [el ''DATE LODGED:'' 5 (-35) 60 10],
      cl 100 (-40) 200 20 [el ''1/2/2019'' 105 (-35) 50 10],
      cl 0 (-20) 100 20 [el ''DEVELOPMENT ADDRESS:'' 5 (-15) 90 10],
      cl 100 (-20) 200 20 [el ''1 Main Street'' 105 (-15) 80 10]]"

definition sampleDate :: "string \<Rightarrow> string option" where
  "sampleDate s = (if s = ''1/2/2019'' then Some ''2019-02-01'' else None)"

definition sampleApplication :: development_application where
  "sampleApplication =
     \<lparr> applicationNumber = ''123/45'', address = ''1 Main Street'',
       description = ''NO DESCRIPTION PROVIDED'', informationUrl = ''register.pdf'',
       commentUrl = CommentUrl, scrapeDate = ''2019-03-21'', receivedDate = ''2019-02-01'' \<rparr>"

text \<open>
  A page whose only ruled box is the one around the label of the address; the address
  itself stands to the right of the box.
\<close>

definition labelOnlyPage :: page where
  "labelOnlyPage =
     \<lparr> lineCandidates = [hline 0 0 100, hline 0 20 100, vline 0 0 20, vline 100 0 20],
       textItems = [item ''APPLICATION NO:'' 5 30 80, item ''200/19'' 90 30 40,
                    item ''DEVELOPMENT ADDRESS:'' 5 5 90, item ''2 High Street'' 105 5 80],
       rotate = 0 \<rparr>"

definition labelOnlyElements :: "element list" where
  "labelOnlyElements =
     [el ''APPLICATION NO:'' 5 (-40) 80 10, el ''200/19'' 90 (-40) 40 10,
      el ''DEVELOPMENT ADDRESS:'' 5 (-15) 90 10, el ''2 High Street'' 105 (-15) 80 10]"

definition labelOnlyCells :: "cell list" where
  "labelOnlyCells = [cl 0 (-20) 100 20 [el ''DEVELOPMENT ADDRESS:'' 5 (-15) 90 10]]"

text \<open>
  Line candidates of one box whose top edge was drawn twice, the second time shifted by
  one unit to the right; and the same candidates with the two top edges exchanged.
\<close>

definition tiedLines :: "rectangle list" where
  "tiedLines = [hline 0 0 100, hline 1 0 100, hline 0 50 100, vline 0 0 50, vline 100 0 50]"

definition tiedLinesSwapped :: "rectangle list" where
  "tiedLinesSwapped =
     [hline 1 0 100, hline 0 0 100, hline 0 50 100, vline 0 0 50, vline 100 0 50]"

text \<open>
  The elements of a page with two applications, after the inversion and in the order of
  the sort: between the two anchors, a tall element that reaches down beside the second
  anchor, and a small note just above the second anchor.
\<close>

definition twoSectionElements :: "element list" where
  "twoSectionElements =
     [el ''APPLICATION NO:'' 5 (-80) 80 10, el ''123/45'' 90 (-80) 40 10,
      el ''Plan'' 200 (-60) 20 30, el ''note'' 5 (-44) 50 3,
      el ''APPLICATION NO:'' 5 (-40) 80 10, el ''200/19'' 90 (-40) 40 10]"


text \<open>
  The label rendered as seven elements of two characters each, side by side on one row.
\<close>

definition sevenElements :: "element list" where
  "sevenElements =
     [el ''AP'' 0 0 12 10, el ''PL'' 12 0 12 10, el ''IC'' 24 0 12 10, el ''AT'' 36 0 12 10,
      el ''IO'' 48 0 12 10, el ''NN'' 60 0 12 10, el ''O:'' 72 0 12 10]"

text \<open>
  A page on which the first letter of the label is misprinted, followed by an application
  number.
\<close>

definition misspelledElements :: "element list" where
  "misspelledElements = [el ''XPPLICATION NO:'' 5 0 80 10, el ''123/45'' 90 0 40 10]"

text \<open>A page with a single element, the label with a stray colon.\<close>

definition strayElements :: "element list" where
  "strayElements = [el ''APPLICATIONNO::'' 5 0 80 10]"

section \<open>Evaluation\<close>

lemmas text_defs = isSpace_def toLowerChar_def toUpperChar_def toLowerCase_def toUpperCase_def
  trim_def removeSpaces_def condense_def removeLeadingColon_def startsWith_def charAt0_def
  joinText_def matchThreshold_def recordMatch_def FindText_def

lemmas geo_defs = calculateDistance_def isVerticalOverlap_def getVerticalOverlapPercentage_def
  closerThan_def getRightElement_def Tolerance_def union_rect_def intersectRectangles_def
  getArea_def getPercentageOfElementInRectangle_def getPercentageOfElementInCell_def

lemmas grid_defs = parseCells_def isHorizontalLine_def isVerticalLine_def horizontalLineOf_def
  verticalLineOf_def horizontalLineComparer_def verticalLineComparer_def nearPoint_def
  addPoint_def haveSharedPoints_def addLinePoints_def gridPoints_def closestRightPoint_def
  closestDownPoint_def cellAt_def cellComparer_def sortBy_def intersectLines_def

lemmas sample_defs = hline_def vline_def item_def el_def cl_def

text \<open>\<open>MAX_VALUE\<close> is never computed: all that matters is that it is large.\<close>

lemma pow_bound:
  fixes n :: nat
  assumes "20 \<le> n"
  shows "1000000 < (2::real) ^ (n + 53) - 2 ^ n"
proof -
  have a: "(2::real) ^ (n + 53) = 2 ^ n * 2 ^ 53" by (simp only: power_add)
  have "(2::real) ^ 20 \<le> 2 ^ n" using assms by (intro power_increasing) auto
  then have b: "(1048576::real) \<le> 2 ^ n" by simp
  show ?thesis unfolding a using b by simp
qed

lemma MAX_VALUE_large: "1000000 < MAX_VALUE"
proof -
  have e: "(1024::nat) = 971 + 53" by simp
  have g: "(20::nat) \<le> 971" by simp
  have "1000000 < (2::real) ^ (971 + 53) - 2 ^ 971" using g by (rule pow_bound)
  then show ?thesis unfolding MAX_VALUE_def e .
qed

lemma MAX_VALUE_cmp:
  "a \<le> 1000000 \<Longrightarrow> a < MAX_VALUE"
  "a \<le> 1000000 \<Longrightarrow> a \<le> MAX_VALUE"
  "a \<le> 1000000 \<Longrightarrow> \<not> MAX_VALUE < a"
  "a \<le> 1000000 \<Longrightarrow> \<not> MAX_VALUE \<le> a"
  "a - b \<le> 1000000 \<Longrightarrow> a < b + MAX_VALUE"
  "a - b \<le> 1000000 \<Longrightarrow> a \<le> b + MAX_VALUE"
  "a - b \<le> 1000000 \<Longrightarrow> \<not> b + MAX_VALUE < a"
  "a - b \<le> 1000000 \<Longrightarrow> \<not> b + MAX_VALUE \<le> a"
  using MAX_VALUE_large by linarith+

subsection \<open>The sample page\<close>

lemma sample_pageElements: "pageElements samplePage = sampleElements"
  by (simp add: pageElements_def samplePage_def sampleElements_def sample_defs parseElements_def
        invertY_def sortBy_def elementComparer_def Tolerance_def)

lemma sample_pageCells: "pageCells samplePage = sampleGrid"
  by (simp add: pageCells_def samplePage_def sampleGrid_def sample_defs grid_defs Tolerance_def
        invertY_def Let_def)

lemma sample_allocate: "allocateElements sampleElements sampleGrid = sampleCells"
  by (simp add: allocateElements_def sampleElements_def sampleGrid_def sampleCells_def
        sample_defs geo_defs)

lemma sample_start:
  "findStartElements sampleElements = [el ''APPLICATION NO:'' 5 (-80) 80 10]"
  by (simp add: findStartElements_def sampleElements_def sample_defs geo_defs text_defs
        bestMatch_def betterMatch_def sortBy_def Let_def fuzzyLoop.simps)

lemma sample_groups:
  "pageGroups samplePage =
     [\<lparr> startElement = el ''APPLICATION NO:'' 5 (-80) 80 10, group_elements = sampleElements,
        group_cells = sampleCells \<rparr>]"
  unfolding pageGroups_def sample_pageElements sample_pageCells sample_allocate Let_def
    applicationElementGroups_def sample_start
  by (simp add: applicationElementGroup_def rowTop_def nextRowTop_def raisedStartElement_def
        getRowTop_def getVerticalOverlapPercentage_def sampleElements_def sampleCells_def
        sample_defs MAX_VALUE_cmp)

lemma sample_bounds:
  "findTextBounds sampleElements ''APPLICATION NO:''
     = Some \<lparr> rx = 5, ry = -80, width = 80, height = 10 \<rparr>"
  by (simp add: findTextBounds_def sampleElements_def sample_defs geo_defs text_defs
        bestMatch_def betterMatch_def Let_def rectangle.truncate_def fuzzyLoop.simps)

lemma sample_description: "descriptionText sampleCells = Inr []"
  by (simp add: descriptionText_def findHeadingCell_def findRightCell_def sampleCells_def
        sample_defs text_defs Tolerance_def)

lemma sample_received: "receivedDateText sampleDate sampleCells = Inr ''2019-02-01''"
  by (simp add: receivedDateText_def findHeadingCell_def findRightCell_def sampleCells_def
        sample_defs text_defs Tolerance_def sampleDate_def)

lemma sample_parse:
  "parseApplicationElements sampleDate ''2019-03-21'' sampleElements sampleCells ''register.pdf''
     = Inr (Some sampleApplication)"
  unfolding parseApplicationElements_def Let_def sample_bounds sample_description sample_received
  by (simp add: findHeadingCell_def findRightCell_def sampleCells_def sampleElements_def
        sample_defs text_defs geo_defs MAX_VALUE_cmp Let_def sampleApplication_def)

lemma sample_parsePdf:
  "parsePdf sampleDate ''2019-03-21'' ''register.pdf'' [samplePage, samplePage]
     = Inr [sampleApplication]"
  by (simp add: parsePdf_def sample_groups sample_parse)

subsection \<open>The page with a label and no value cell\<close>

lemma labelOnly_pageElements: "pageElements labelOnlyPage = labelOnlyElements"
  by (simp add: pageElements_def labelOnlyPage_def labelOnlyElements_def sample_defs
        parseElements_def invertY_def sortBy_def elementComparer_def Tolerance_def)

lemma labelOnly_pageCells: "pageCells labelOnlyPage = [cl 0 (-20) 100 20 []]"
  by (simp add: pageCells_def labelOnlyPage_def sample_defs grid_defs Tolerance_def
        invertY_def Let_def)

lemma labelOnly_allocate:
  "allocateElements labelOnlyElements [cl 0 (-20) 100 20 []] = labelOnlyCells"
  by (simp add: allocateElements_def labelOnlyElements_def labelOnlyCells_def
        sample_defs geo_defs)

lemma labelOnly_start:
  "findStartElements labelOnlyElements = [el ''APPLICATION NO:'' 5 (-40) 80 10]"
  by (simp add: findStartElements_def labelOnlyElements_def sample_defs geo_defs text_defs
        bestMatch_def betterMatch_def sortBy_def Let_def fuzzyLoop.simps)

lemma labelOnly_groups:
  "pageGroups labelOnlyPage =
     [\<lparr> startElement = el ''APPLICATION NO:'' 5 (-40) 80 10,
        group_elements = labelOnlyElements, group_cells = labelOnlyCells \<rparr>]"
  unfolding pageGroups_def labelOnly_pageElements labelOnly_pageCells labelOnly_allocate Let_def
    applicationElementGroups_def labelOnly_start
  by (simp add: applicationElementGroup_def rowTop_def nextRowTop_def raisedStartElement_def
        getRowTop_def getVerticalOverlapPercentage_def labelOnlyElements_def labelOnlyCells_def
        sample_defs MAX_VALUE_cmp)

lemma labelOnly_bounds:
  "findTextBounds labelOnlyElements ''APPLICATION NO:''
     = Some \<lparr> rx = 5, ry = -40, width = 80, height = 10 \<rparr>"
  by (simp add: findTextBounds_def labelOnlyElements_def sample_defs geo_defs text_defs
        bestMatch_def betterMatch_def Let_def rectangle.truncate_def fuzzyLoop.simps)

lemma labelOnly_description: "descriptionText labelOnlyCells = Inr []"
  by (simp add: descriptionText_def findHeadingCell_def labelOnlyCells_def
        sample_defs text_defs)

lemma labelOnly_received: "receivedDateText sampleDate labelOnlyCells = Inr []"
  by (simp add: receivedDateText_def findHeadingCell_def labelOnlyCells_def
        sample_defs text_defs)

lemma labelOnly_parse:
  "parseApplicationElements sampleDate ''2019-03-21'' labelOnlyElements labelOnlyCells
     ''register.pdf'' = Inl TypeError"
  unfolding parseApplicationElements_def Let_def labelOnly_bounds labelOnly_description
    labelOnly_received
  by (simp add: findHeadingCell_def findRightCell_def labelOnlyCells_def labelOnlyElements_def
        sample_defs text_defs geo_defs MAX_VALUE_cmp Let_def)

subsection \<open>The page with two sections\<close>

lemma two_start:
  "findStartElements twoSectionElements
     = [el ''APPLICATION NO:'' 5 (-80) 80 10, el ''APPLICATION NO:'' 5 (-40) 80 10]"
  by (simp add: findStartElements_def twoSectionElements_def sample_defs geo_defs text_defs
        bestMatch_def betterMatch_def sortBy_def yComparer_def Let_def fuzzyLoop.simps)

lemma two_rowTops:
  "rowTop twoSectionElements (findStartElements twoSectionElements) 0 = -85"
  "rowTop twoSectionElements (findStartElements twoSectionElements) 1 = -45"
  "rowTop twoSectionElements (findStartElements twoSectionElements) (Suc 0) = -45"
  unfolding two_start
  by (simp_all add: rowTop_def raisedStartElement_def getRowTop_def
        getVerticalOverlapPercentage_def twoSectionElements_def sample_defs)

lemma two_groups:
  "map group_elements (applicationElementGroups twoSectionElements [])
     = [[el ''APPLICATION NO:'' 5 (-80) 80 10, el ''123/45'' 90 (-80) 40 10,
         el ''note'' 5 (-44) 50 3],
        [el ''note'' 5 (-44) 50 3, el ''APPLICATION NO:'' 5 (-40) 80 10,
         el ''200/19'' 90 (-40) 40 10]]"
  unfolding applicationElementGroups_def Let_def two_start
  by (simp add: applicationElementGroup_def rowTop_def nextRowTop_def raisedStartElement_def
        getRowTop_def getVerticalOverlapPercentage_def twoSectionElements_def sample_defs
        MAX_VALUE_cmp upt_rec)

section \<open>Properties of the geometry kernel\<close>

lemma intersectLines_zero_length:
  "zero_length l \<or> zero_length m \<Longrightarrow> intersectLines l m b = None"
  by (auto simp: intersectLines_def zero_length_def)

text \<open>
  C2. \<open>union\<close> is meant to be the smallest rectangle covering both arguments. At the
  rectangles \<open>(0, 10, 10, 10)\<close> and \<open>(0, 0, 10, 10)\<close> the source returns \<open>(0, 10, 10, 10)\<close>:
  the corner \<open>(0, 0)\<close> of the second rectangle lies in the second rectangle and not in the
  result, so the result does not cover the second argument.
\<close>

theorem union_rect_misses_second:
  "union_rect \<lparr> rx = 0, ry = 10, width = 10, height = 10 \<rparr>
              \<lparr> rx = 0, ry = 0, width = 10, height = 10 \<rparr>
     = \<lparr> rx = 0, ry = 10, width = 10, height = 10 \<rparr>
   \<and> inside \<lparr> px = 0, py = 0 \<rparr> \<lparr> rx = 0, ry = 0, width = 10, height = 10 \<rparr>
   \<and> \<not> inside \<lparr> px = 0, py = 0 \<rparr>
        (union_rect \<lparr> rx = 0, ry = 10, width = 10, height = 10 \<rparr>
                    \<lparr> rx = 0, ry = 0, width = 10, height = 10 \<rparr>)"
  by (simp add: union_rect_def inside_def)

text \<open>
  C3. \<open>intersectLines\<close> is meant to return nothing for parallel lines. The segments from
  \<open>(0, 1)\<close> to \<open>(2, 3)\<close> and from \<open>(0, 0)\<close> to \<open>(4, 4)\<close> are parallel, neither has length zero,
  and the source returns the point \<open>(2, 3)\<close> for them, also when the result is clamped to
  the segments.
\<close>

theorem intersectLines_parallel_returns_point:
  "parallel \<lparr> x1 = 0, y1 = 1, x2 = 2, y2 = 3 \<rparr> \<lparr> x1 = 0, y1 = 0, x2 = 4, y2 = 4 \<rparr>
   \<and> \<not> zero_length \<lparr> x1 = 0, y1 = 1, x2 = 2, y2 = 3 \<rparr>
   \<and> \<not> zero_length \<lparr> x1 = 0, y1 = 0, x2 = 4, y2 = 4 \<rparr>
   \<and> intersectLines \<lparr> x1 = 0, y1 = 1, x2 = 2, y2 = 3 \<rparr> \<lparr> x1 = 0, y1 = 0, x2 = 4, y2 = 4 \<rparr> True
       = Some \<lparr> px = 2, py = 3 \<rparr>"
  by (simp add: intersectLines_def parallel_def zero_length_def)

section \<open>Field extraction and the records of a document\<close>

subsection \<open>A label cell without a value cell\<close>

text \<open>
  C1. A section whose address label is found in a cell, with no cell starting at the top
  right corner of that cell, is meant to yield no record and to leave the other sections
  to be processed. On \<open>labelOnlyPage\<close> the label cell is found, \<open>find\<close> returns no cell to
  its right, and \<open>parseApplicationElements\<close> raises the \<open>TypeError\<close> of reading
  \<open>addressCell.elements\<close>. Nothing catches it: \<open>parsePdf\<close> raises it for the document
  made of \<open>samplePage\<close> and \<open>labelOnlyPage\<close>, and the record of \<open>samplePage\<close> is lost with it.
\<close>

theorem label_without_value_cell_raises:
  "findHeadingCell labelOnlyCells ''DEVELOPMENTADDRESS:''
     = Some (cl 0 (-20) 100 20 [el ''DEVELOPMENT ADDRESS:'' 5 (-15) 90 10])
   \<and> findRightCell labelOnlyCells (cl 0 (-20) 100 20 [el ''DEVELOPMENT ADDRESS:'' 5 (-15) 90 10])
       = None
   \<and> parseApplicationElements sampleDate ''2019-03-21'' labelOnlyElements labelOnlyCells
       ''register.pdf'' = Inl TypeError
   \<and> parsePdf sampleDate ''2019-03-21'' ''register.pdf'' [samplePage] = Inr [sampleApplication]
   \<and> parsePdf sampleDate ''2019-03-21'' ''register.pdf'' [samplePage, labelOnlyPage]
       = Inl TypeError"
proof -
  have "findHeadingCell labelOnlyCells ''DEVELOPMENTADDRESS:''
          = Some (cl 0 (-20) 100 20 [el ''DEVELOPMENT ADDRESS:'' 5 (-15) 90 10])"
    by (simp add: findHeadingCell_def labelOnlyCells_def sample_defs text_defs)
  moreover have "findRightCell labelOnlyCells
                   (cl 0 (-20) 100 20 [el ''DEVELOPMENT ADDRESS:'' 5 (-15) 90 10]) = None"
    by (simp add: findRightCell_def labelOnlyCells_def sample_defs Tolerance_def)
  moreover have "parsePdf sampleDate ''2019-03-21'' ''register.pdf'' [samplePage]
                   = Inr [sampleApplication]"
    by (simp add: parsePdf_def sample_groups sample_parse)
  moreover have "parsePdf sampleDate ''2019-03-21'' ''register.pdf'' [samplePage, labelOnlyPage]
                   = Inl TypeError"
    by (simp add: parsePdf_def sample_groups sample_parse labelOnly_groups labelOnly_parse)
  ultimately show ?thesis using labelOnly_parse by simp
qed

subsection \<open>Distinct application numbers\<close>

lemma parseGroups_distinct:
  "parseGroups parseDate today url gs das = Inr das' \<Longrightarrow> distinct (map applicationNumber das)
     \<Longrightarrow> distinct (map applicationNumber das')"
proof (induction gs arbitrary: das)
  case Nil
  then show ?case by simp
next
  case (Cons g gs)
  show ?case
  proof (cases "parseApplicationElements parseDate today (group_elements g) (group_cells g) url")
    case (Inl e)
    with Cons.prems show ?thesis by simp
  next
    case (Inr r)
    show ?thesis
    proof (cases r)
      case None
      with Inr Cons show ?thesis by simp
    next
      case (Some da)
      show ?thesis
      proof (cases "list_ex (\<lambda>other. applicationNumber other = applicationNumber da) das")
        case True
        with Inr Some Cons show ?thesis by simp
      next
        case False
        then have "applicationNumber da \<notin> set (map applicationNumber das)"
          by (auto simp: list_ex_iff)
        with Cons.prems(2) have "distinct (map applicationNumber (das @ [da]))" by simp
        moreover from Inr Some False Cons.prems(1)
        have "parseGroups parseDate today url gs (das @ [da]) = Inr das'" by simp
        ultimately show ?thesis by (rule Cons.IH[rotated])
      qed
    qed
  qed
qed

lemma parsePages_distinct:
  "parsePages parseDate today url pgs das = Inr das' \<Longrightarrow> distinct (map applicationNumber das)
     \<Longrightarrow> distinct (map applicationNumber das')"
proof (induction pgs arbitrary: das)
  case Nil
  then show ?case by simp
next
  case (Cons pg pgs)
  then show ?case
    by (auto split: sum.splits dest: parseGroups_distinct)
qed

text \<open>
  C10. The application numbers of the records that \<open>parsePdf\<close> returns for a document are
  pairwise distinct.
\<close>

theorem parsePdf_distinct_application_numbers:
  "parsePdf parseDate today url pages = Inr das \<Longrightarrow> distinct (map applicationNumber das)"
  unfolding parsePdf_def by (erule parsePages_distinct) simp

text \<open>The document made of \<open>samplePage\<close> twice yields its application once.\<close>

theorem parsePdf_distinct_application_numbers_witness:
  "parsePdf sampleDate ''2019-03-21'' ''register.pdf'' [samplePage, samplePage]
     = Inr [sampleApplication]
   \<and> distinct (map applicationNumber [sampleApplication])"
  by (rule conjI [OF sample_parsePdf
        parsePdf_distinct_application_numbers [OF sample_parsePdf]])

subsection \<open>No blank address, no blank description\<close>

lemma trim_prefix: "\<exists>v. dropWhile isSpace s = trim s @ v"
proof -
  let ?u = "dropWhile isSpace s"
  have "rev (dropWhile isSpace (rev ?u)) @ rev (takeWhile isSpace (rev ?u))
          = rev (takeWhile isSpace (rev ?u) @ dropWhile isSpace (rev ?u))"
    by (simp only: rev_append)
  also have "\<dots> = rev (rev ?u)" by (simp only: takeWhile_dropWhile_id)
  also have "\<dots> = ?u" by simp
  finally have "?u = trim s @ rev (takeWhile isSpace (rev ?u))" by (simp only: trim_def)
  then show ?thesis by blast
qed

lemma trim_hd: "trim s \<noteq> [] \<Longrightarrow> \<not> isSpace (hd (trim s))"
proof -
  assume ne: "trim s \<noteq> []"
  obtain v where v: "dropWhile isSpace s = trim s @ v" using trim_prefix by blast
  with ne have "hd (dropWhile isSpace s) = hd (trim s)" by simp
  moreover from v ne have "dropWhile isSpace s \<noteq> []" by auto
  then have "\<not> isSpace (hd (dropWhile isSpace s))" by (rule hd_dropWhile)
  ultimately show ?thesis by simp
qed

lemma trim_nonblank: "s \<noteq> [] \<Longrightarrow> \<not> isSpace (hd s) \<Longrightarrow> trim s \<noteq> []"
  by (cases s) (auto simp: trim_def)

lemma collapseSpaces_hd: "s \<noteq> [] \<Longrightarrow> \<not> isSpace (hd s) \<Longrightarrow> collapseSpaces s \<noteq> [] \<and> hd (collapseSpaces s) = hd s"
  by (cases s rule: collapseSpaces.cases) auto

lemma collapseSpaces_Nil: "collapseSpaces s = [] \<Longrightarrow> s = []"
  by (cases s rule: collapseSpaces.cases) (auto split: if_splits)

lemma collapsed_trim_nonblank: "collapseSpaces (trim s) \<noteq> [] \<Longrightarrow> trim (collapseSpaces (trim s)) \<noteq> []"
proof -
  assume a: "collapseSpaces (trim s) \<noteq> []"
  then have ne: "trim s \<noteq> []" by auto
  then have sp: "\<not> isSpace (hd (trim s))" by (rule trim_hd)
  from ne sp have "hd (collapseSpaces (trim s)) = hd (trim s)"
    by (simp add: collapseSpaces_hd)
  with sp have "\<not> isSpace (hd (collapseSpaces (trim s)))" by simp
  with a show ?thesis by (rule trim_nonblank)
qed

lemma sentinel_nonblank: "trim ''NO DESCRIPTION PROVIDED'' \<noteq> []"
  by (simp add: trim_def isSpace_def)

lemma parseApplicationElements_SomeE:
  assumes "parseApplicationElements parseDate today es cells url = Inr (Some da)"
  obtains descr and addressCell :: cell where
    "descriptionText cells = Inr descr"
    "collapseSpaces (trim (joinText (elements addressCell))) \<noteq> []"
    "address da = collapseSpaces (trim (joinText (elements addressCell)))"
    "description da = (if trim descr \<noteq> [] then descr else ''NO DESCRIPTION PROVIDED'')"
proof -
  from assms obtain hb where hb: "findTextBounds es ''APPLICATION NO:'' = Some hb"
    by (cases "findTextBounds es ''APPLICATION NO:''") (simp_all add: parseApplicationElements_def)
  from assms obtain descr where d: "descriptionText cells = Inr descr"
    by (cases "descriptionText cells")
       (simp_all add: parseApplicationElements_def hb Let_def split: if_splits)
  from assms obtain received where r: "receivedDateText parseDate cells = Inr received"
    by (cases "receivedDateText parseDate cells")
       (simp_all add: parseApplicationElements_def hb d Let_def split: if_splits)
  from assms obtain hc where hc: "findHeadingCell cells ''DEVELOPMENTADDRESS:'' = Some hc"
    by (cases "findHeadingCell cells ''DEVELOPMENTADDRESS:''")
       (simp_all add: parseApplicationElements_def hb d r Let_def split: if_splits)
  from assms obtain ac where ac: "findRightCell cells hc = Some ac"
    by (cases "findRightCell cells hc")
       (simp_all add: parseApplicationElements_def hb d r hc Let_def split: if_splits)
  from assms have A: "collapseSpaces (trim (joinText (elements ac))) \<noteq> []"
    and B: "address da = collapseSpaces (trim (joinText (elements ac)))"
    and C: "description da = (if trim descr \<noteq> [] then descr else ''NO DESCRIPTION PROVIDED'')"
    by (auto simp add: parseApplicationElements_def hb d r hc ac Let_def split: if_splits)
  show thesis by (rule that[OF d A B C])
qed

lemma parseApplicationElements_record:
  assumes "parseApplicationElements parseDate today es cells url = Inr (Some da)"
  shows "trim (address da) \<noteq> []
     \<and> (\<exists>descr. descriptionText cells = Inr descr
           \<and> description da = (if trim descr = [] then ''NO DESCRIPTION PROVIDED'' else descr))
     \<and> trim (description da) \<noteq> []"
proof -
  from assms obtain descr and addressCell :: cell where
    d: "descriptionText cells = Inr descr"
    and A: "collapseSpaces (trim (joinText (elements addressCell))) \<noteq> []"
    and B: "address da = collapseSpaces (trim (joinText (elements addressCell)))"
    and C: "description da = (if trim descr \<noteq> [] then descr else ''NO DESCRIPTION PROVIDED'')"
    by (rule parseApplicationElements_SomeE)
  from A B have "trim (address da) \<noteq> []" by (simp add: collapsed_trim_nonblank)
  moreover from C have "description da = (if trim descr = [] then ''NO DESCRIPTION PROVIDED'' else descr)"
    by simp
  moreover from C have "trim (description da) \<noteq> []"
    by (cases "trim descr = []") (simp_all add: sentinel_nonblank)
  ultimately show ?thesis using d by blast
qed

lemma parseGroups_all:
  "parseGroups parseDate today url gs das = Inr das' \<Longrightarrow>
   list_all (\<lambda>da. trim (address da) \<noteq> [] \<and> trim (description da) \<noteq> []) das \<Longrightarrow>
   list_all (\<lambda>da. trim (address da) \<noteq> [] \<and> trim (description da) \<noteq> []) das'"
proof (induction gs arbitrary: das)
  case Nil
  then show ?case by simp
next
  case (Cons g gs)
  show ?case
  proof (cases "parseApplicationElements parseDate today (group_elements g) (group_cells g) url")
    case (Inl e)
    with Cons.prems show ?thesis by simp
  next
    case (Inr r)
    show ?thesis
    proof (cases r)
      case None
      with Inr Cons show ?thesis by simp
    next
      case (Some da)
      with Inr have ok: "trim (address da) \<noteq> [] \<and> trim (description da) \<noteq> []"
        using parseApplicationElements_record by blast
      show ?thesis
      proof (cases "list_ex (\<lambda>other. applicationNumber other = applicationNumber da) das")
        case True
        with Inr Some Cons show ?thesis by simp
      next
        case False
        from ok Cons.prems(2)
        have "list_all (\<lambda>da. trim (address da) \<noteq> [] \<and> trim (description da) \<noteq> []) (das @ [da])"
          by simp
        moreover from Inr Some False Cons.prems(1)
        have "parseGroups parseDate today url gs (das @ [da]) = Inr das'" by simp
        ultimately show ?thesis by (rule Cons.IH[rotated])
      qed
    qed
  qed
qed

lemma parsePages_all:
  "parsePages parseDate today url pgs das = Inr das' \<Longrightarrow>
   list_all (\<lambda>da. trim (address da) \<noteq> [] \<and> trim (description da) \<noteq> []) das \<Longrightarrow>
   list_all (\<lambda>da. trim (address da) \<noteq> [] \<and> trim (description da) \<noteq> []) das'"
proof (induction pgs arbitrary: das)
  case Nil
  then show ?case by simp
next
  case (Cons pg pgs)
  from Cons.prems(1) obtain mid where
    m1: "parseGroups parseDate today url (pageGroups pg) das = Inr mid"
    and m2: "parsePages parseDate today url pgs mid = Inr das'"
    by (cases "parseGroups parseDate today url (pageGroups pg) das") simp_all
  from m1 Cons.prems(2)
  have "list_all (\<lambda>da. trim (address da) \<noteq> [] \<and> trim (description da) \<noteq> []) mid"
    by (rule parseGroups_all)
  with m2 show ?case by (rule Cons.IH)
qed

text \<open>
  C4. A record returned by \<open>parseApplicationElements\<close> has an address that is not blank,
  and its description is the sentinel \<open>NO DESCRIPTION PROVIDED\<close> whenever the description
  text read from the section is blank; so no record returned by \<open>parsePdf\<close> has a blank
  address or a blank description.
\<close>

theorem records_never_blank:
  "(parseApplicationElements parseDate today es cells url = Inr (Some da) \<longrightarrow>
      trim (address da) \<noteq> []
      \<and> (\<exists>descr. descriptionText cells = Inr descr
            \<and> description da = (if trim descr = [] then ''NO DESCRIPTION PROVIDED'' else descr)))
   \<and> (parsePdf parseDate today url pages = Inr das \<longrightarrow>
        list_all (\<lambda>da. trim (address da) \<noteq> [] \<and> trim (description da) \<noteq> []) das)"
proof (intro conjI impI)
  assume a: "parseApplicationElements parseDate today es cells url = Inr (Some da)"
  from parseApplicationElements_record [OF a] show "trim (address da) \<noteq> []" by blast
  from parseApplicationElements_record [OF a]
  show "\<exists>descr. descriptionText cells = Inr descr
          \<and> description da = (if trim descr = [] then ''NO DESCRIPTION PROVIDED'' else descr)"
    by blast
next
  assume "parsePdf parseDate today url pages = Inr das"
  then have "parsePages parseDate today url (take 500 pages) [] = Inr das"
    by (simp add: parsePdf_def)
  then show "list_all (\<lambda>da. trim (address da) \<noteq> [] \<and> trim (description da) \<noteq> []) das"
    by (rule parsePages_all) simp
qed

text \<open>On \<open>samplePage\<close> the description cell is empty and the record carries the sentinel.\<close>

theorem records_never_blank_witness:
  "parseApplicationElements sampleDate ''2019-03-21'' sampleElements sampleCells ''register.pdf''
     = Inr (Some sampleApplication)
   \<and> parsePdf sampleDate ''2019-03-21'' ''register.pdf'' [samplePage, samplePage]
       = Inr [sampleApplication]
   \<and> descriptionText sampleCells = Inr []
   \<and> trim (address sampleApplication) \<noteq> []
   \<and> description sampleApplication = ''NO DESCRIPTION PROVIDED''
   \<and> list_all (\<lambda>da. trim (address da) \<noteq> [] \<and> trim (description da) \<noteq> [])
        [sampleApplication]"
proof -
  note t = records_never_blank [where parseDate = sampleDate and today = "''2019-03-21''"
      and es = sampleElements and cells = sampleCells and url = "''register.pdf''"
      and da = sampleApplication and pages = "[samplePage, samplePage]"
      and das = "[sampleApplication]"]
  from t sample_parse have "trim (address sampleApplication) \<noteq> []" by blast
  moreover from t sample_parsePdf
  have "list_all (\<lambda>da. trim (address da) \<noteq> [] \<and> trim (description da) \<noteq> [])
          [sampleApplication]" by blast
  moreover have "description sampleApplication = ''NO DESCRIPTION PROVIDED''"
    by (simp add: sampleApplication_def)
  ultimately show ?thesis using sample_parse sample_parsePdf sample_description by blast
qed

section \<open>Sorting with a comparison function\<close>

lemma mset_insertSorted: "mset (insertSorted cmp e r) = add_mset e (mset r)"
  by (induction r) auto

lemma mset_insert_loop:
  "mset (foldl (\<lambda>r e. insertSorted cmp e r) acc xs) = mset acc + mset xs"
  by (induction xs arbitrary: acc) (auto simp: mset_insertSorted)

lemma mset_sortBy: "mset (sortBy cmp xs) = mset xs"
  by (simp add: sortBy_def mset_insert_loop)

lemma set_sortBy: "set (sortBy cmp xs) = set xs"
  by (metis mset_sortBy set_mset_mset)


lemma set_insertSorted: "set (insertSorted cmp e r) = insert e (set r)"
  by (metis mset_insertSorted set_mset_add_mset_insert set_mset_mset)

lemma descending_insertSorted:
  assumes "comparesKey cmp f" "sorted_wrt (\<lambda>a b. f a \<ge> f b) r"
  shows "sorted_wrt (\<lambda>a b. f a \<ge> f b) (insertSorted cmp e r)"
  using assms(2)
proof (induction r)
  case Nil
  then show ?case by simp
next
  case (Cons t ts)
  show ?case
  proof (cases "cmp t e > 0")
    case True
    with assms(1) have "f t > f e" by (simp add: comparesKey_def)
    with True Cons show ?thesis by (auto simp: set_insertSorted)
  next
    case False
    with assms(1) have "f t \<le> f e" by (simp add: comparesKey_def not_less)
    with False Cons.prems show ?thesis by auto
  qed
qed

lemma descending_insert_loop:
  assumes "comparesKey cmp f"
  shows "sorted_wrt (\<lambda>a b. f a \<ge> f b) acc \<Longrightarrow>
         sorted_wrt (\<lambda>a b. f a \<ge> f b) (foldl (\<lambda>r e. insertSorted cmp e r) acc xs)"
  by (induction xs arbitrary: acc) (auto intro: descending_insertSorted [OF assms])

lemma sorted_sortBy:
  assumes "comparesKey cmp f"
  shows "sorted (map f (sortBy cmp xs))"
proof -
  have "sorted_wrt (\<lambda>a b. f a \<ge> f b) (foldl (\<lambda>r e. insertSorted cmp e r) [] xs)"
    by (rule descending_insert_loop [OF assms]) simp
  then have "sorted_wrt (\<lambda>a b. f a \<le> f b) (rev (foldl (\<lambda>r e. insertSorted cmp e r) [] xs))"
    by (simp add: sorted_wrt_rev)
  then show ?thesis by (simp add: sortBy_def sorted_map)
qed

lemma sorted_distinct_keys_unique:
  fixes f :: "'a \<Rightarrow> real"
  assumes "mset as = mset bs" "distinct (map f bs)" "sorted (map f as)" "sorted (map f bs)"
  shows "as = bs"
proof -
  have m: "mset (map f as) = mset (map f bs)" using assms(1) by simp
  have da: "distinct (map f as)"
    using mset_eq_imp_distinct_iff [OF m] assms(2) by blast
  have s: "set (map f as) = set (map f bs)" using m by (rule mset_eq_setD)
  have e: "map f as = map f bs"
    using assms(3) da assms(4) assms(2) s by (rule sorted_distinct_set_unique)
  have "set as = set bs" using assms(1) by (rule mset_eq_setD)
  moreover have "inj_on f (set bs)" using assms(2) by (simp add: distinct_map)
  ultimately have "inj_on f (set as \<union> set bs)" by simp
  with e show ?thesis by (rule map_inj_on)
qed

lemma sortBy_permutation:
  assumes key: "comparesKey cmp f"
    and perm: "mset xs = mset ys"
    and dist: "distinct (map f xs)"
  shows "sortBy cmp xs = sortBy cmp ys"
proof -
  have m: "mset (sortBy cmp xs) = mset (sortBy cmp ys)"
    using perm by (simp add: mset_sortBy)
  have "mset (map f (sortBy cmp ys)) = mset (map f xs)"
    using perm by (simp add: mset_sortBy)
  then have d: "distinct (map f (sortBy cmp ys))"
    using mset_eq_imp_distinct_iff dist by blast
  show ?thesis
    using m d sorted_sortBy [OF key] sorted_sortBy [OF key]
    by (rule sorted_distinct_keys_unique)
qed


lemma horizontalLineComparer_key: "comparesKey horizontalLineComparer y1"
  by (simp add: comparesKey_def horizontalLineComparer_def)

lemma verticalLineComparer_key: "comparesKey verticalLineComparer x1"
  by (simp add: comparesKey_def verticalLineComparer_def)

lemma parseCells_permutation:
  assumes perm: "mset lines' = mset lines"
    and dh: "distinct (map ry (filter isHorizontalLine lines))"
    and dv: "distinct (map rx (filter isVerticalLine lines))"
  shows "parseCells lines' = parseCells lines"
proof -
  have kh: "map y1 (map horizontalLineOf (filter isHorizontalLine lines))
          = map ry (filter isHorizontalLine lines)"
    by (simp add: horizontalLineOf_def)
  have dh': "distinct (map y1 (map horizontalLineOf (filter isHorizontalLine lines)))"
    unfolding kh by (rule dh)
  have kv: "map x1 (map verticalLineOf (filter isVerticalLine lines))
          = map rx (filter isVerticalLine lines)"
    by (simp add: verticalLineOf_def)
  have dv': "distinct (map x1 (map verticalLineOf (filter isVerticalLine lines)))"
    unfolding kv by (rule dv)
  have mh: "mset (map horizontalLineOf (filter isHorizontalLine lines))
          = mset (map horizontalLineOf (filter isHorizontalLine lines'))"
    using perm by simp
  have mv: "mset (map verticalLineOf (filter isVerticalLine lines))
          = mset (map verticalLineOf (filter isVerticalLine lines'))"
    using perm by simp
  have h: "sortBy horizontalLineComparer (map horizontalLineOf (filter isHorizontalLine lines))
          = sortBy horizontalLineComparer (map horizontalLineOf (filter isHorizontalLine lines'))"
    by (rule sortBy_permutation [OF horizontalLineComparer_key mh dh'])
  have v: "sortBy verticalLineComparer (map verticalLineOf (filter isVerticalLine lines))
          = sortBy verticalLineComparer (map verticalLineOf (filter isVerticalLine lines'))"
    by (rule sortBy_permutation [OF verticalLineComparer_key mv dv'])
  show ?thesis unfolding parseCells_def h v ..
qed

section \<open>Grid reconstruction and the order of the line candidates\<close>

text \<open>
  C6, as stated: every permutation of the line candidates yields the same cells. The
  candidates \<open>tiedLines\<close> and \<open>tiedLinesSwapped\<close> are permutations of each other; the sort
  keeps two horizontal lines of equal \<open>y\<close> in the order of the input, the first of the two
  puts its end points into the lattice, and those of the second are dropped as
  duplicates within the tolerance. The one cell found starts at \<open>x = 0\<close> for the first
  list and at \<open>x = 1\<close> for the second.
\<close>

theorem parseCells_order_counterexample:
  "mset tiedLinesSwapped = mset tiedLines
   \<and> parseCells tiedLines = [cl 0 0 100 50 []]
   \<and> parseCells tiedLinesSwapped = [cl 1 0 100 50 []]
   \<and> parseCells tiedLinesSwapped \<noteq> parseCells tiedLines"
proof -
  have p: "mset tiedLinesSwapped = mset tiedLines"
    by (simp add: tiedLines_def tiedLinesSwapped_def)
  have a: "parseCells tiedLines = [cl 0 0 100 50 []]"
    by (simp add: tiedLines_def sample_defs grid_defs Tolerance_def Let_def)
  have b: "parseCells tiedLinesSwapped = [cl 1 0 100 50 []]"
    by (simp add: tiedLinesSwapped_def sample_defs grid_defs Tolerance_def Let_def)
  have "parseCells tiedLinesSwapped \<noteq> parseCells tiedLines"
    unfolding a b by (simp add: cl_def)
  with p a b show ?thesis by simp
qed

text \<open>
  C6, amended: when no two horizontal lines among the candidates have the same \<open>y\<close> and no
  two vertical lines the same \<open>x\<close>, every permutation of the candidates yields the same
  list of cells.
\<close>

theorem parseCells_order_independent:
  "mset lines' = mset lines \<Longrightarrow>
   distinct (map ry (filter isHorizontalLine lines)) \<Longrightarrow>
   distinct (map rx (filter isVerticalLine lines)) \<Longrightarrow>
   parseCells lines' = parseCells lines"
  by (rule parseCells_permutation)

text \<open>The line candidates of \<open>samplePage\<close>, read backwards.\<close>

theorem parseCells_order_independent_witness:
  "mset (rev (lineCandidates samplePage)) = mset (lineCandidates samplePage)
   \<and> distinct (map ry (filter isHorizontalLine (lineCandidates samplePage)))
   \<and> distinct (map rx (filter isVerticalLine (lineCandidates samplePage)))
   \<and> parseCells (rev (lineCandidates samplePage)) = parseCells (lineCandidates samplePage)"
proof -
  have p: "mset (rev (lineCandidates samplePage)) = mset (lineCandidates samplePage)"
    by simp
  have h: "distinct (map ry (filter isHorizontalLine (lineCandidates samplePage)))"
    by (simp add: samplePage_def sample_defs isHorizontalLine_def Tolerance_def)
  have v: "distinct (map rx (filter isVerticalLine (lineCandidates samplePage)))"
    by (simp add: samplePage_def sample_defs isHorizontalLine_def isVerticalLine_def
          Tolerance_def)
  from p h v parseCells_order_independent [OF p h v] show ?thesis by blast
qed

section \<open>Ownership of elements\<close>

lemma percentage_elements_update:
  "getPercentageOfElementInCell e (c \<lparr> elements := x \<rparr>) = getPercentageOfElementInCell e c"
  by (simp add: getPercentageOfElementInCell_def intersectRectangles_def)

lemma allocate_length: "length (allocate e cs) = length cs"
  by (induction cs) auto

lemma allocate_percentage:
  "k < length cs \<Longrightarrow>
   getPercentageOfElementInCell e' (allocate e cs ! k) = getPercentageOfElementInCell e' (cs ! k)"
proof (induction cs arbitrary: k)
  case Nil
  then show ?case by simp
next
  case (Cons c cs)
  then show ?case
    by (cases k) (auto simp: percentage_elements_update)
qed

lemma firstOwner_zero:
  "firstOwner e (c # cs) 0 \<longleftrightarrow> getPercentageOfElementInCell e c > 50"
  by (simp add: firstOwner_def)

lemma firstOwner_Suc:
  "firstOwner e (c # cs) (Suc j) \<longleftrightarrow>
     \<not> getPercentageOfElementInCell e c > 50 \<and> firstOwner e cs j"
  by (auto simp: firstOwner_def All_less_Suc2)

lemma allocate_elements:
  "i < length cs \<Longrightarrow>
   elements (allocate e cs ! i) = elements (cs ! i) @ (if firstOwner e cs i then [e] else [])"
proof (induction cs arbitrary: i)
  case Nil
  then show ?case by simp
next
  case (Cons c cs)
  show ?case
  proof (cases i)
    case 0
    then show ?thesis by (simp add: firstOwner_zero)
  next
    case (Suc j)
    with Cons.prems have "j < length cs" by simp
    then have "elements (allocate e cs ! j)
                 = elements (cs ! j) @ (if firstOwner e cs j then [e] else [])"
      by (rule Cons.IH)
    with Suc show ?thesis by (simp add: firstOwner_Suc)
  qed
qed

lemma firstOwner_allocate:
  "i < length cs \<Longrightarrow> firstOwner e' (allocate e cs) i \<longleftrightarrow> firstOwner e' cs i"
  by (simp add: firstOwner_def allocate_percentage)

lemma allocateElements_length: "length (allocateElements es cells) = length cells"
  unfolding allocateElements_def
  by (induction es arbitrary: cells) (simp_all add: allocate_length)

lemma allocateElements_elements:
  "i < length cells \<Longrightarrow>
   elements (allocateElements es cells ! i)
     = elements (cells ! i) @ filter (\<lambda>e. firstOwner e cells i) es"
proof (induction es arbitrary: cells)
  case Nil
  then show ?case by (simp add: allocateElements_def)
next
  case (Cons e es)
  have step: "allocateElements (e # es) cells = allocateElements es (allocate e cells)"
    by (simp add: allocateElements_def)
  from Cons.prems have i: "i < length (allocate e cells)" by (simp add: allocate_length)
  have "elements (allocateElements es (allocate e cells) ! i)
          = elements (allocate e cells ! i) @ filter (\<lambda>e'. firstOwner e' (allocate e cells) i) es"
    using i by (rule Cons.IH)
  also have "filter (\<lambda>e'. firstOwner e' (allocate e cells) i) es
               = filter (\<lambda>e'. firstOwner e' cells i) es"
    using Cons.prems by (simp add: firstOwner_allocate)
  also have "elements (allocate e cells ! i)
               = elements (cells ! i) @ (if firstOwner e cells i then [e] else [])"
    using Cons.prems by (rule allocate_elements)
  finally show ?case by (simp add: step)
qed

lemma firstOwner_unique: "firstOwner e cells i \<Longrightarrow> firstOwner e cells j \<Longrightarrow> i = j"
  unfolding firstOwner_def by (meson linorder_neqE_nat)

lemma groups_elements_independent:
  "map group_elements (applicationElementGroups es cells)
     = map group_elements (applicationElementGroups es cells')"
  by (simp add: applicationElementGroups_def applicationElementGroup_def Let_def)

lemma cellAt_elements: "c \<in> set (cellAt points p) \<Longrightarrow> elements c = []"
  by (auto simp: cellAt_def split: option.splits)

lemma parseCells_elements: "c \<in> set (parseCells lines) \<Longrightarrow> elements c = []"
  by (auto simp: parseCells_def Let_def set_sortBy cellAt_elements)

lemma pageCells_elements: "c \<in> set (pageCells pg) \<Longrightarrow> elements c = []"
  by (auto simp: pageCells_def Let_def set_sortBy invertY_def rotate90Clockwise_def
        parseCells_elements split: if_splits)

text \<open>
  C7. After the allocation, the elements of the cell at index \<open>i\<close> of a page are the
  elements of the page, in their order, whose first owner is that cell: the first cell, in
  the order of the sorted cells, that holds more than half of the element. So no element
  is in two cells, and an element that no cell holds for more than half is in none. The
  sections take their elements from all the elements of the page, whatever the cells.
\<close>

theorem element_owned_by_first_cell:
  assumes "i < length (pageCells pg)" and "j < length (pageCells pg)"
  shows "elements (allocateElements (pageElements pg) (pageCells pg) ! i)
           = filter (\<lambda>e. firstOwner e (pageCells pg) i) (pageElements pg)
         \<and> (e \<in> set (elements (allocateElements (pageElements pg) (pageCells pg) ! i))
              \<and> e \<in> set (elements (allocateElements (pageElements pg) (pageCells pg) ! j))
             \<longrightarrow> i = j)
         \<and> map group_elements (pageGroups pg)
             = map group_elements (applicationElementGroups (pageElements pg) [])"
proof -
  have empty: "elements (pageCells pg ! k) = []" if "k < length (pageCells pg)" for k
    by (rule pageCells_elements [of _ pg]) (simp add: that)
  have own: "elements (allocateElements (pageElements pg) (pageCells pg) ! k)
               = filter (\<lambda>e. firstOwner e (pageCells pg) k) (pageElements pg)"
    if "k < length (pageCells pg)" for k
    using that by (simp add: allocateElements_elements empty)
  have "i = j"
    if "e \<in> set (elements (allocateElements (pageElements pg) (pageCells pg) ! i))"
      and "e \<in> set (elements (allocateElements (pageElements pg) (pageCells pg) ! j))"
    using that assms by (auto simp: own intro: firstOwner_unique)
  moreover have "map group_elements (pageGroups pg)
                   = map group_elements (applicationElementGroups (pageElements pg) [])"
    unfolding pageGroups_def Let_def by (rule groups_elements_independent)
  ultimately show ?thesis using own [OF assms(1)] by blast
qed

text \<open>On \<open>samplePage\<close> the third cell owns the label of the date, and nothing else.\<close>

theorem element_owned_by_first_cell_witness:
  "2 < length (pageCells samplePage)
   \<and> el ''DATE LODGED:'' 5 (-35) 60 10
        \<in> set (elements (allocateElements (pageElements samplePage) (pageCells samplePage) ! 2))
   \<and> filter (\<lambda>e. firstOwner e (pageCells samplePage) 2) (pageElements samplePage)
       = [el ''DATE LODGED:'' 5 (-35) 60 10]
   \<and> map group_elements (pageGroups samplePage)
       = map group_elements (applicationElementGroups (pageElements samplePage) [])"
proof -
  have len: "2 < length (pageCells samplePage)"
    by (simp add: sample_pageCells sampleGrid_def)
  have ev: "elements (allocateElements (pageElements samplePage) (pageCells samplePage) ! 2)
              = [el ''DATE LODGED:'' 5 (-35) 60 10]"
    by (simp add: sample_pageElements sample_pageCells sample_allocate sampleCells_def cl_def)
  note t = element_owned_by_first_cell [OF len len, of "el ''DATE LODGED:'' 5 (-35) 60 10"]
  from t ev have "filter (\<lambda>e. firstOwner e (pageCells samplePage) 2) (pageElements samplePage)
                    = [el ''DATE LODGED:'' 5 (-35) 60 10]" by simp
  with t len ev show ?thesis by simp
qed

section \<open>Approximate matching of the anchor\<close>

lemma editDistance_Nil2: "editDistance xs [] = length xs"
  by (cases xs) simp_all

lemma editDistance_length_diff:
  "int (length xs) - int (length ys) \<le> int (editDistance xs ys)
   \<and> int (length ys) - int (length xs) \<le> int (editDistance xs ys)"
proof (induction xs ys rule: editDistance.induct)
  case (1 ys)
  show ?case by simp
next
  case (2 x xs)
  show ?case by simp
next
  case (3 x xs y ys)
  then show ?case by (auto simp: min_def)
qed

lemma editDistance_refl: "editDistance xs xs = 0"
  by (induction xs) simp_all

lemma editDistance_zero: "editDistance xs ys = 0 \<Longrightarrow> xs = ys"
proof (induction xs ys rule: editDistance.induct)
  case (1 ys)
  then show ?case by simp
next
  case (2 x xs)
  then show ?case by simp
next
  case (3 x xs y ys)
  then show ?case by (auto simp: min_def split: if_splits)
qed

lemma editDistance_zero_iff: "editDistance xs ys = 0 \<longleftrightarrow> xs = ys"
  using editDistance_zero editDistance_refl by metis

lemma toLowerChar_idem: "toLowerChar (toLowerChar c) = toLowerChar c"
  by (simp add: toLowerChar_def)

lemma toLowerCase_idem: "toLowerCase (toLowerCase s) = toLowerCase s"
  by (simp add: toLowerCase_def toLowerChar_idem)

lemma isSpace_toLowerChar: "isSpace (toLowerChar c) \<longleftrightarrow> isSpace c"
  by (simp add: toLowerChar_def isSpace_def)

lemma squeezeSpaces_id: "list_all (\<lambda>c. \<not> isSpace c) s \<Longrightarrow> squeezeSpaces s = s"
  by (induction s) simp_all

lemma trim_id: "list_all (\<lambda>c. \<not> isSpace c) s \<Longrightarrow> trim s = s"
proof -
  assume a: "list_all (\<lambda>c. \<not> isSpace c) s"
  then have "dropWhile isSpace s = s" by (cases s) simp_all
  moreover from a have "list_all (\<lambda>c. \<not> isSpace c) (rev s)" by (simp add: list_all_iff)
  then have "dropWhile isSpace (rev s) = rev s" by (cases "rev s") simp_all
  ultimately show ?thesis by (simp add: trim_def)
qed

lemma condensed_no_space: "list_all (\<lambda>c. \<not> isSpace c) (toLowerCase (condense s))"
  by (simp add: toLowerCase_def condense_def list_all_iff isSpace_toLowerChar)

lemma normalizeString_condensed:
  "normalizeString (toLowerCase (condense s)) = toLowerCase (condense s)"
  by (simp add: normalizeString_def trim_id squeezeSpaces_id condensed_no_space toLowerCase_idem)

lemma normalizeString_FindText: "normalizeString FindText = toLowerCase FindText"
  by (simp add: normalizeString_def FindText_def trim_def isSpace_def)

lemma length_FindText: "length FindText = 14" "length (toLowerCase FindText) = 14"
  by (simp_all add: FindText_def toLowerCase_def)

lemma editDistance_common_prefix: "editDistance (p @ xs) (p @ ys) \<le> editDistance xs ys"
proof (induction p)
  case Nil
  show ?case by simp
next
  case (Cons a p)
  have "editDistance ((a # p) @ xs) ((a # p) @ ys) \<le> editDistance (p @ xs) (p @ ys)"
    by simp
  then show ?case using Cons by (rule order_trans)
qed

lemma stray_colon_distance:
  "editDistance ''applicationno::'' (toLowerCase FindText) = 1"
proof -
  have p: "toLowerCase FindText = ''applicationno:''"
    by (simp add: FindText_def toLowerCase_def toLowerChar_def)
  have e1: "''applicationno:'' @ '':'' = ''applicationno::''" by simp
  have e2: "''applicationno:'' @ [] = ''applicationno:''" by simp
  have e3: "editDistance '':'' ([] :: string) = 1" by simp
  have upper: "editDistance ''applicationno::'' ''applicationno:'' \<le> 1"
    using editDistance_common_prefix [of "''applicationno:''" "'':''" "[]"]
    unfolding e1 e2 e3 .
  have l1: "int (length ''applicationno::'') = 15" by simp
  have l2: "int (length ''applicationno:'') = 14" by simp
  have "int (length ''applicationno::'') - int (length ''applicationno:'')
          \<le> int (editDistance ''applicationno::'' ''applicationno:'')"
    using editDistance_length_diff by blast
  then have lower: "1 \<le> editDistance ''applicationno::'' ''applicationno:''"
    unfolding l1 l2 by linarith
  show ?thesis unfolding p using upper lower by (rule antisym)
qed

text \<open>
  The step that records a match, in terms of the edit distance \<open>d\<close> between the joined,
  normalized text and the normalized label: for \<open>d\<close> at most 2 the text is not too long
  and a match of threshold \<open>d\<close> is pushed, for \<open>d\<close> of 3 or more nothing is pushed.
\<close>

lemma recordMatch_rank:
  "(if editDistance (toLowerCase (condense (joinText rightElements))) (toLowerCase FindText) \<le> 2
    then recordMatch (toLowerCase FindText) FindText rightElement rightElements
             (toLowerCase (condense (joinText rightElements))) matches
           = matches @ [\<lparr> m_element = rightElement, m_elements = rightElements,
                          threshold = editDistance (toLowerCase (condense (joinText rightElements)))
                                        (toLowerCase FindText),
                          m_text = toLowerCase (condense (joinText rightElements)) \<rparr>]
         \<and> \<not> int (length (toLowerCase (condense (joinText rightElements))))
                > int (length FindText) + 2
    else recordMatch (toLowerCase FindText) FindText rightElement rightElements
             (toLowerCase (condense (joinText rightElements))) matches
           = matches)"
proof -
  let ?t = "toLowerCase (condense (joinText rightElements))" and ?p = "toLowerCase FindText"
  let ?d = "editDistance ?t ?p"
  have d: "didYouMean ?t FindText n \<noteq> None \<longleftrightarrow> ?d \<le> n" for n
    by (simp add: didYouMean_def normalizeString_condensed normalizeString_FindText)
  have z: "?t = ?p \<longleftrightarrow> ?d = 0" by (simp add: editDistance_zero_iff)
  have m: "matchThreshold ?p FindText ?t
             = (if ?d = 0 then Some 0 else if ?d \<le> 1 then Some 1
                else if ?d \<le> 2 then Some 2 else None)"
    unfolding matchThreshold_def d z ..
  have l: "int (length ?t) - int (length ?p) \<le> int ?d"
          "int (length ?p) - int (length ?t) \<le> int ?d"
    using editDistance_length_diff [of ?t ?p] by simp_all
  show ?thesis
  proof (cases "?d \<le> 2")
    case True
    then have "?d = 0 \<or> ?d = 1 \<or> ?d = 2" by arith
    then have "matchThreshold ?p FindText ?t = Some ?d" unfolding m by auto
    moreover from l True have "\<not> int (length ?t) > int (length FindText) + 2"
      and "int (length ?t) \<ge> int (length FindText) - 2"
      by (simp_all add: length_FindText)
    ultimately show ?thesis using True by (simp add: recordMatch_def)
  next
    case False
    then have "matchThreshold ?p FindText ?t = None" unfolding m by simp
    with False show ?thesis by (simp add: recordMatch_def)
  qed
qed

text \<open>The label with a stray colon, \<open>APPLICATIONNO::\<close>, is recorded with threshold 1.\<close>

lemma recordMatch_stray_colon:
  "recordMatch (toLowerCase FindText) FindText (el ''APPLICATIONNO::'' 5 0 80 10)
       [el ''APPLICATIONNO::'' 5 0 80 10] ''applicationno::'' []
     = [\<lparr> m_element = el ''APPLICATIONNO::'' 5 0 80 10,
          m_elements = [el ''APPLICATIONNO::'' 5 0 80 10],
          threshold = 1, m_text = ''applicationno::'' \<rparr>]"
proof -
  have t: "toLowerCase (condense (joinText [el ''APPLICATIONNO::'' 5 0 80 10]))
             = ''applicationno::''"
    by (simp add: el_def joinText_def condense_def toLowerCase_def toLowerChar_def isSpace_def)
  show ?thesis
    using recordMatch_rank [of "[el ''APPLICATIONNO::'' 5 0 80 10]"
        "el ''APPLICATIONNO::'' 5 0 80 10" "[]"]
    unfolding t stray_colon_distance by simp
qed

section \<open>Sections of a page\<close>

lemma getRowTop_le: "getRowTop es s \<le> ry s"
proof -
  have "foldl (\<lambda>top element.
              if ry element < ry s + height s
                 \<and> ry element + height element > ry s
                 \<and> getVerticalOverlapPercentage s element > 50
                 \<and> ry element < top
              then ry element else top) t es \<le> t" for t
    by (induction es arbitrary: t) (auto intro: order_trans less_imp_le)
  then show ?thesis by (simp add: getRowTop_def)
qed

lemma length_groups:
  "length (applicationElementGroups es cells) = length (findStartElements es)"
  by (simp add: applicationElementGroups_def Let_def)

lemma group_elements_nth:
  "i < length (findStartElements es) \<Longrightarrow>
   group_elements (applicationElementGroups es cells ! i)
     = filter (\<lambda>e. ry e \<ge> rowTop es (findStartElements es) i
                   \<and> ry e + height e < nextRowTop es (findStartElements es) i) es"
  by (simp add: applicationElementGroups_def Let_def applicationElementGroup_def)

lemma getRowTop_fold:
  "getRowTop es s = foldl (\<lambda>top e. if inRow s e \<and> ry e < top then ry e else top) (ry s) es"
  by (simp add: getRowTop_def inRow_def conj_assoc)

lemma rowTop_fold_le:
  "foldl (\<lambda>top e. if inRow s e \<and> ry e < top then ry e else top) t es \<le> t"
  by (induction es arbitrary: t) (auto intro: order_trans less_imp_le)

lemma rowTop_fold_mono:
  "t \<le> u \<Longrightarrow>
   foldl (\<lambda>top e. if inRow s e \<and> ry e < top then ry e else top) t es
     \<le> foldl (\<lambda>top e. if inRow s e \<and> ry e < top then ry e else top) u es"
proof (induction es arbitrary: t u)
  case Nil
  then show ?case by simp
next
  case (Cons e es)
  show ?case by (simp; intro conjI impI Cons.IH; use Cons.prems in linarith)
qed

lemma rowTop_fold_member:
  "e \<in> set es \<Longrightarrow> inRow s e \<Longrightarrow>
   foldl (\<lambda>top e. if inRow s e \<and> ry e < top then ry e else top) t es \<le> ry e"
proof (induction es arbitrary: t)
  case Nil
  then show ?case by simp
next
  case (Cons a es)
  show ?case
  proof (cases "e = a")
    case True
    have "foldl (\<lambda>top e. if inRow s e \<and> ry e < top then ry e else top)
            (if inRow s a \<and> ry a < t then ry a else t) es
           \<le> (if inRow s a \<and> ry a < t then ry a else t)"
      by (rule rowTop_fold_le)
    also have "\<dots> \<le> ry e" using True Cons.prems(2) by auto
    finally show ?thesis by simp
  next
    case False
    with Cons.prems have "e \<in> set es" by simp
    then show ?thesis using Cons.prems(2) by (simp add: Cons.IH)
  qed
qed

lemma rowTop_fold_cases:
  "foldl (\<lambda>top e. if inRow s e \<and> ry e < top then ry e else top) t es = t
   \<or> (\<exists>e\<in>set es. inRow s e
         \<and> foldl (\<lambda>top e. if inRow s e \<and> ry e < top then ry e else top) t es = ry e)"
proof (induction es arbitrary: t)
  case Nil
  then show ?case by simp
next
  case (Cons a es)
  from Cons.IH [of "if inRow s a \<and> ry a < t then ry a else t"]
  show ?case by (auto split: if_splits)
qed

lemma getRowTop_member: "e \<in> set es \<Longrightarrow> inRow s e \<Longrightarrow> getRowTop es s \<le> ry e"
  unfolding getRowTop_fold by (rule rowTop_fold_member)

lemma getRowTop_cases:
  "getRowTop es s = ry s \<or> (\<exists>e\<in>set es. inRow s e \<and> getRowTop es s = ry e)"
  unfolding getRowTop_fold by (rule rowTop_fold_cases)

lemma inRow_raised:
  assumes h: "0 \<le> height s" and r: "inRow s e" and low: "ry e < ry s - height s / 2"
  shows "inRow (raisedStartElement s) e"
proof -
  let ?ya = "max (ry s) (ry e)" and ?yb = "min (ry s + height s) (ry e + height e)"
  let ?ya' = "max (ry s - height s / 2) (ry e)"
  let ?yb' = "min (ry s - height s / 2 + height s) (ry e + height e)"
  from r have p: "(if ?yb < ?ya then 0 else ((?yb - ?ya) * 100) / height e) > 50"
    and top: "ry e + height e > ry s"
    by (simp_all add: inRow_def getVerticalOverlapPercentage_def Let_def)
  from p have nlt: "\<not> ?yb < ?ya" and q: "((?yb - ?ya) * 100) / height e > 50"
    by (auto split: if_splits)
  from top low h have he: "height e > 0" by linarith
  from q he have pos: "?yb - ?ya > 0"
    by (smt (verit) divide_nonpos_pos mult_nonpos_nonneg)
  have ge: "?yb' - ?ya' \<ge> ?yb - ?ya" using h low by (auto simp: min_def max_def)
  with pos have nlt': "\<not> ?yb' < ?ya'" by linarith
  from ge he have "((?yb' - ?ya') * 100) / height e \<ge> ((?yb - ?ya) * 100) / height e"
    by (simp add: divide_right_mono)
  with q have q': "((?yb' - ?ya') * 100) / height e > 50" by linarith
  have "getVerticalOverlapPercentage (raisedStartElement s) e > 50"
    using nlt' q' by (simp add: getVerticalOverlapPercentage_def raisedStartElement_def Let_def)
  moreover have "ry e < ry (raisedStartElement s) + height (raisedStartElement s)"
    using low h by (simp add: raisedStartElement_def)
  moreover have "ry e + height e > ry (raisedStartElement s)"
    using top h by (simp add: raisedStartElement_def)
  ultimately show ?thesis by (simp add: inRow_def)
qed

lemma getRowTop_raised_le:
  assumes h: "0 \<le> height s"
  shows "getRowTop es (raisedStartElement s) \<le> getRowTop es s"
proof -
  have base: "getRowTop es (raisedStartElement s) \<le> ry s - height s / 2"
    using getRowTop_le [of es "raisedStartElement s"] by (simp add: raisedStartElement_def)
  from getRowTop_cases [of es s] show ?thesis
  proof
    assume "getRowTop es s = ry s"
    with base h show ?thesis by linarith
  next
    assume "\<exists>e\<in>set es. inRow s e \<and> getRowTop es s = ry e"
    then obtain e where e: "e \<in> set es" "inRow s e" "getRowTop es s = ry e" by blast
    show ?thesis
    proof (cases "ry e < ry s - height s / 2")
      case True
      with h e(2) have "inRow (raisedStartElement s) e" by (rule inRow_raised)
      with e(1) have "getRowTop es (raisedStartElement s) \<le> ry e" by (rule getRowTop_member)
      with e(3) show ?thesis by simp
    next
      case False
      with base e(3) show ?thesis by linarith
    qed
  qed
qed


lemma getRightElement_fold_mem:
  "foldl (\<lambda>closestElement rightElement.
              if isVerticalOverlap element rightElement
                 \<and> getVerticalOverlapPercentage element rightElement > 50
                 \<and> rx rightElement > rx element + width element - Tolerance
                 \<and> rx rightElement - (rx element + width element) < 30
                 \<and> closerThan element rightElement closestElement
              then Some rightElement else closestElement) acc es = Some r
   \<Longrightarrow> acc = Some r \<or> r \<in> set es"
  by (induction es arbitrary: acc) (auto split: if_splits)

lemma getRightElement_mem: "getRightElement es element = Some r \<Longrightarrow> r \<in> set es"
  unfolding getRightElement_def by (drule getRightElement_fold_mem) simp

lemma recordMatch_element:
  "m \<in> set (recordMatch exact phrase r rs t ms) \<Longrightarrow> m \<in> set ms \<or> m_element m = r"
  by (auto simp: recordMatch_def split: if_splits option.splits)

lemma fuzzyLoop_element:
  "m \<in> set (fuzzyLoop exact phrase es r rs ms) \<Longrightarrow>
   m \<in> set ms \<or> m_element m = r \<or> m_element m \<in> set es"
proof (induction exact phrase es r rs ms rule: fuzzyLoop.induct)
  case (1 exact phrase es r rs ms)
  let ?rs = "rs @ [r]"
  let ?t = "toLowerCase (condense (joinText ?rs))"
  let ?ms = "recordMatch exact phrase r ?rs ?t ms"
  show ?case
  proof (cases "int (length ?t) > int (length phrase) + 2")
    case True
    with "1.prems" show ?thesis by (simp add: fuzzyLoop.simps [of exact phrase es r rs ms])
  next
    case long: False
    show ?thesis
    proof (cases "getRightElement es r")
      case None
      with long "1.prems" have "m \<in> set ?ms"
        by (simp add: fuzzyLoop.simps [of exact phrase es r rs ms] Let_def)
      then show ?thesis using recordMatch_element by blast
    next
      case (Some nxt)
      show ?thesis
      proof (cases "length ?rs < 5")
        case True
        with long Some "1.prems" have "m \<in> set (fuzzyLoop exact phrase es nxt ?rs ?ms)"
          by (simp add: fuzzyLoop.simps [of exact phrase es r rs ms] Let_def)
        with "1.IH" [OF refl refl long refl Some True]
        have "m \<in> set ?ms \<or> m_element m = nxt \<or> m_element m \<in> set es" by blast
        moreover have "nxt \<in> set es" using Some by (rule getRightElement_mem)
        ultimately show ?thesis using recordMatch_element by blast
      next
        case False
        with long Some "1.prems" have "m \<in> set ?ms"
          by (simp add: fuzzyLoop.simps [of exact phrase es r rs ms] Let_def)
        then show ?thesis using recordMatch_element by blast
      qed
    qed
  qed
qed

lemma bestMatch_fold_mem:
  "foldl (betterMatch len) acc ms = Some m \<Longrightarrow> acc = Some m \<or> m \<in> set ms"
  by (induction ms arbitrary: acc) (auto simp: betterMatch_def split: option.splits if_splits)

lemma bestMatch_mem: "bestMatch len ms = Some m \<Longrightarrow> m \<in> set ms"
  unfolding bestMatch_def by (drule bestMatch_fold_mem) simp

lemma findStartElements_subset: "set (findStartElements es) \<subseteq> set es"
proof
  fix s assume "s \<in> set (findStartElements es)"
  then obtain element m where el: "element \<in> set es"
    and b: "bestMatch (length FindText)
              (fuzzyLoop (toLowerCase FindText) FindText es element [] []) = Some m"
    and s: "s = m_element m"
    by (auto simp: findStartElements_def set_sortBy split: option.splits) metis
  from b have "m \<in> set (fuzzyLoop (toLowerCase FindText) FindText es element [] [])"
    by (rule bestMatch_mem)
  then have "m_element m = element \<or> m_element m \<in> set es"
    using fuzzyLoop_element by fastforce
  with el s show "s \<in> set es" by auto
qed


lemma rowTop_next_le:
  assumes "list_all (\<lambda>e. 0 \<le> height e) es" and "i + 1 < length (findStartElements es)"
  shows "rowTop es (findStartElements es) (i + 1) \<le> nextRowTop es (findStartElements es) i"
    and "nextRowTop es (findStartElements es) i \<le> ry (findStartElements es ! (i + 1))"
proof -
  let ?s = "findStartElements es ! (i + 1)"
  from assms(2) have "?s \<in> set (findStartElements es)" by (rule nth_mem)
  then have "?s \<in> set es" using findStartElements_subset by blast
  with assms(1) have "0 \<le> height ?s" by (simp add: list_all_iff)
  then have "getRowTop es (raisedStartElement ?s) \<le> getRowTop es ?s"
    by (rule getRowTop_raised_le)
  with assms(2) show "rowTop es (findStartElements es) (i + 1)
                        \<le> nextRowTop es (findStartElements es) i"
    by (simp add: rowTop_def nextRowTop_def)
  from assms(2) show "nextRowTop es (findStartElements es) i \<le> ry ?s"
    by (simp add: nextRowTop_def getRowTop_le)
qed

text \<open>
  C5, as stated: an element whose \<open>y\<close> lies between the row top of its anchor and the row
  top of the next anchor belongs to the section, and no element belongs to two sections.
  On \<open>twoSectionElements\<close> the row tops of the two sections are \<open>-85\<close> and \<open>-45\<close>. The tall
  element has \<open>y = -60\<close> and is in no section, because the source takes the elements whose
  lower edge lies above the next row; and the note is in both sections, because the
  window of the first section ends at the row top of the second anchor as it stands
  (\<open>-40\<close>), and that of the second begins at the row top of the raised anchor (\<open>-45\<close>).
\<close>

theorem sections_partition_counterexample:
  "el ''Plan'' 200 (-60) 20 30 \<in> set twoSectionElements
   \<and> rowTop twoSectionElements (findStartElements twoSectionElements) 0
       \<le> ry (el ''Plan'' 200 (-60) 20 30)
   \<and> ry (el ''Plan'' 200 (-60) 20 30)
       < rowTop twoSectionElements (findStartElements twoSectionElements) 1
   \<and> el ''Plan'' 200 (-60) 20 30
       \<notin> set (group_elements (applicationElementGroups twoSectionElements [] ! 0))
   \<and> el ''note'' 5 (-44) 50 3
       \<in> set (group_elements (applicationElementGroups twoSectionElements [] ! 0))
   \<and> el ''note'' 5 (-44) 50 3
       \<in> set (group_elements (applicationElementGroups twoSectionElements [] ! 1))"
proof -
  have g0: "group_elements (applicationElementGroups twoSectionElements [] ! 0)
              = map group_elements (applicationElementGroups twoSectionElements []) ! 0"
    and g1: "group_elements (applicationElementGroups twoSectionElements [] ! 1)
              = map group_elements (applicationElementGroups twoSectionElements []) ! 1"
    by (simp_all add: length_groups two_start)
  show ?thesis
    unfolding g0 g1 two_groups two_rowTops
    by (simp add: twoSectionElements_def el_def)
qed

text \<open>
  C5, amended, for a page whose elements have heights that are not negative. An element
  that lies wholly in the window of section \<open>i\<close>, from the row top of anchor \<open>i\<close> to the row
  top of anchor \<open>i + 1\<close> (to \<open>MAX_VALUE\<close> for the last anchor), belongs to section \<open>i\<close>; and
  an element of section \<open>i\<close> begins at or below the row top of anchor \<open>i\<close> and ends above
  anchor \<open>i + 1\<close>.
\<close>

theorem section_window:
  assumes "list_all (\<lambda>e. 0 \<le> height e) es"
    and "i < length (findStartElements es)"
    and "e \<in> set es"
  shows "(rowTop es (findStartElements es) i \<le> ry e
          \<and> ry e + height e < (if i + 1 < length (findStartElements es)
                                 then rowTop es (findStartElements es) (i + 1)
                                 else MAX_VALUE)
          \<longrightarrow> e \<in> set (group_elements (applicationElementGroups es cells ! i)))
       \<and> (e \<in> set (group_elements (applicationElementGroups es cells ! i))
          \<longrightarrow> rowTop es (findStartElements es) i \<le> ry e
              \<and> ry e + height e < (if i + 1 < length (findStartElements es)
                                     then ry (findStartElements es ! (i + 1))
                                     else MAX_VALUE))"
proof (cases "i + 1 < length (findStartElements es)")
  case True
  note b = rowTop_next_le [OF assms(1) True]
  from True b assms(2,3) show ?thesis
    by (auto simp: group_elements_nth)
next
  case False
  then have "nextRowTop es (findStartElements es) i = MAX_VALUE"
    by (simp add: nextRowTop_def)
  with False assms(2,3) show ?thesis
    by (auto simp: group_elements_nth)
qed

text \<open>The application number of the first section of \<open>twoSectionElements\<close>.\<close>

theorem section_window_witness:
  "list_all (\<lambda>e. 0 \<le> height e) twoSectionElements
   \<and> 0 < length (findStartElements twoSectionElements)
   \<and> el ''123/45'' 90 (-80) 40 10 \<in> set twoSectionElements
   \<and> rowTop twoSectionElements (findStartElements twoSectionElements) 0
       \<le> ry (el ''123/45'' 90 (-80) 40 10)
   \<and> ry (el ''123/45'' 90 (-80) 40 10) + height (el ''123/45'' 90 (-80) 40 10)
       < rowTop twoSectionElements (findStartElements twoSectionElements) (0 + 1)
   \<and> el ''123/45'' 90 (-80) 40 10
       \<in> set (group_elements (applicationElementGroups twoSectionElements [] ! 0))
   \<and> ry (el ''123/45'' 90 (-80) 40 10) + height (el ''123/45'' 90 (-80) 40 10)
       < ry (findStartElements twoSectionElements ! (0 + 1))"
proof -
  have h: "list_all (\<lambda>e. 0 \<le> height e) twoSectionElements"
    by (simp add: twoSectionElements_def el_def)
  have i: "0 < length (findStartElements twoSectionElements)" by (simp add: two_start)
  have m: "el ''123/45'' 90 (-80) 40 10 \<in> set twoSectionElements"
    by (simp add: twoSectionElements_def)
  have w: "rowTop twoSectionElements (findStartElements twoSectionElements) 0
             \<le> ry (el ''123/45'' 90 (-80) 40 10)"
    "ry (el ''123/45'' 90 (-80) 40 10) + height (el ''123/45'' 90 (-80) 40 10)
       < rowTop twoSectionElements (findStartElements twoSectionElements) (0 + 1)"
    by (simp_all add: two_rowTops el_def)
  have n: "0 + 1 < length (findStartElements twoSectionElements)" by (simp add: two_start)
  note t = section_window [OF h i m, of "[]"]
  from t w n have a: "el ''123/45'' 90 (-80) 40 10
       \<in> set (group_elements (applicationElementGroups twoSectionElements [] ! 0))"
    by simp
  with t n have "ry (el ''123/45'' 90 (-80) 40 10) + height (el ''123/45'' 90 (-80) 40 10)
       < ry (findStartElements twoSectionElements ! (0 + 1))"
    by simp
  with h i m w a show ?thesis by blast
qed

section \<open>The anchors of a page\<close>

subsection \<open>The matches recorded by the loop\<close>

lemma length_anchorText_append:
  "length (anchorText (rs @ c)) = length (anchorText rs) + length (anchorText c)"
  by (simp add: anchorText_def joinText_def condense_def toLowerCase_def)

lemma near_label_not_long:
  assumes "labelDistance rs \<le> 2"
  shows "\<not> int (length (anchorText rs)) > int (length FindText) + 2"
  using recordMatch_rank [of rs undefined "[]"] assms
  by (simp add: labelDistance_def anchorText_def)

lemma long_prefix_far:
  assumes "int (length (anchorText rs)) > int (length FindText) + 2"
  shows "\<not> labelDistance (rs @ c) \<le> 2"
proof
  assume "labelDistance (rs @ c) \<le> 2"
  then have "\<not> int (length (anchorText (rs @ c))) > int (length FindText) + 2"
    by (rule near_label_not_long)
  with assms show False by (simp add: length_anchorText_append)
qed

lemma recordMatch_ranked:
  "recordMatch (toLowerCase FindText) FindText r (rs @ [r]) (anchorText (rs @ [r])) ms
     = (if labelDistance (rs @ [r]) \<le> 2 then ms @ [rankedMatch (rs @ [r])] else ms)"
  using recordMatch_rank [of "rs @ [r]" r ms]
  by (simp add: labelDistance_def anchorText_def rankedMatch_def split: if_splits)

lemma continues_single:
  "continues es r rs [r] \<longleftrightarrow> length (rs @ [r]) \<le> 5 \<and> labelDistance (rs @ [r]) \<le> 2"
  by (simp add: continues_def)

lemma continues_cases:
  "continues es r rs c \<longleftrightarrow>
     (c = [r] \<and> continues es r rs [r])
     \<or> (\<exists>nxt c'. c = r # c' \<and> getRightElement es r = Some nxt \<and> continues es nxt (rs @ [r]) c')"
proof (cases c)
  case Nil
  then show ?thesis by (simp add: continues_def)
next
  case (Cons a c')
  show ?thesis
  proof (cases c')
    case Nil
    with Cons show ?thesis by (auto simp: continues_def)
  next
    case (Cons f c'')
    with \<open>c = a # c'\<close> show ?thesis by (auto simp: continues_def)
  qed
qed

lemma continues_too_long:
  "int (length (anchorText (rs @ [r]))) > int (length FindText) + 2 \<Longrightarrow> \<not> continues es r rs c"
proof
  assume l: "int (length (anchorText (rs @ [r]))) > int (length FindText) + 2"
    and c: "continues es r rs c"
  from c obtain c' where "c = r # c'" by (cases c) (auto simp: continues_def)
  then have "rs @ c = (rs @ [r]) @ c'" by simp
  with c have "labelDistance ((rs @ [r]) @ c') \<le> 2" by (simp add: continues_def)
  with long_prefix_far [OF l] show False by blast
qed

lemma continues_full: "5 \<le> length rs \<Longrightarrow> \<not> continues es r rs c"
  by (cases c) (auto simp: continues_def)

lemma fuzzyLoop_matches:
  "length rs < 5 \<Longrightarrow>
   set (fuzzyLoop (toLowerCase FindText) FindText es r rs ms)
     = set ms \<union> {rankedMatch (rs @ c) | c. continues es r rs c}"
proof (induction "toLowerCase FindText" FindText es r rs ms rule: fuzzyLoop.induct)
  case (1 es r rs ms)
  let ?rs = "rs @ [r]"
  let ?t = "toLowerCase (condense (joinText ?rs))"
  let ?ms = "recordMatch (toLowerCase FindText) FindText r ?rs ?t ms"
  have t: "?t = anchorText ?rs" by (simp add: anchorText_def)
  have rec: "set ?ms = set ms \<union> {rankedMatch (rs @ c) | c. c = [r] \<and> continues es r rs [r]}"
    using "1.prems" unfolding t recordMatch_ranked by (auto simp: continues_single)
  show ?case
  proof (cases "int (length ?t) > int (length FindText) + 2")
    case True
    then have "\<And>c. \<not> continues es r rs c" unfolding t by (rule continues_too_long)
    with True show ?thesis
      by (simp add: fuzzyLoop.simps [of _ _ es r rs ms])
  next
    case long: False
    show ?thesis
    proof (cases "getRightElement es r")
      case None
      have "{rankedMatch (rs @ c) | c. continues es r rs c}
              = {rankedMatch (rs @ c) | c. c = [r] \<and> continues es r rs [r]}"
        using None by (subst continues_cases) auto
      with long None rec show ?thesis
        by (simp add: fuzzyLoop.simps [of _ _ es r rs ms] Let_def)
    next
      case (Some nxt)
      have split: "{rankedMatch (rs @ c) | c. continues es r rs c}
              = {rankedMatch (rs @ c) | c. c = [r] \<and> continues es r rs [r]}
                \<union> {rankedMatch (?rs @ c') | c'. continues es nxt ?rs c'}"
        using Some by (subst continues_cases) auto
      show ?thesis
      proof (cases "length ?rs < 5")
        case True
        have "set (fuzzyLoop (toLowerCase FindText) FindText es nxt ?rs ?ms)
                = set ?ms \<union> {rankedMatch (?rs @ c') | c'. continues es nxt ?rs c'}"
          using long Some True by (intro "1.hyps") simp_all
        with long Some True rec split show ?thesis
          by (simp add: fuzzyLoop.simps [of _ _ es r rs ms] Let_def Un_assoc)
      next
        case False
        then have "\<And>c'. \<not> continues es nxt ?rs c'" by (intro continues_full) simp
        with long Some False rec split show ?thesis
          by (simp add: fuzzyLoop.simps [of _ _ es r rs ms] Let_def)
      qed
    qed
  qed
qed

subsection \<open>The best match and the anchors\<close>

lemma bestMatch_fold_None:
  "foldl (betterMatch len) acc ms = None \<longleftrightarrow> acc = None \<and> ms = []"
  by (induction ms arbitrary: acc) (auto simp: betterMatch_def split: option.splits)

lemma bestMatch_None: "bestMatch len ms = None \<longleftrightarrow> ms = []"
  by (simp add: bestMatch_def bestMatch_fold_None)

lemma betterMatch_threshold:
  "betterMatch len acc m = Some b \<Longrightarrow>
   threshold b \<le> threshold m \<and> (case acc of None \<Rightarrow> True | Some a \<Rightarrow> threshold b \<le> threshold a)"
  by (auto simp: betterMatch_def split: option.splits if_splits)

lemma bestMatch_fold_least:
  "foldl (betterMatch len) acc ms = Some b \<Longrightarrow>
   (case acc of None \<Rightarrow> True | Some a \<Rightarrow> threshold b \<le> threshold a)
   \<and> list_all (\<lambda>m. threshold b \<le> threshold m) ms"
proof (induction ms arbitrary: acc)
  case Nil
  then show ?case by simp
next
  case (Cons m ms)
  have "betterMatch len acc m \<noteq> None"
    by (cases acc) (simp_all add: betterMatch_def)
  then obtain c where c: "betterMatch len acc m = Some c" by blast
  with Cons.prems have "foldl (betterMatch len) (Some c) ms = Some b" by simp
  from Cons.IH [OF this] have ih: "threshold b \<le> threshold c"
    "list_all (\<lambda>m. threshold b \<le> threshold m) ms" by simp_all
  from betterMatch_threshold [OF c] ih show ?case
    by (auto split: option.splits)
qed

lemma bestMatch_least:
  "bestMatch len ms = Some b \<Longrightarrow> b \<in> set ms \<and> list_all (\<lambda>m. threshold b \<le> threshold m) ms"
  using bestMatch_mem [of len ms b] bestMatch_fold_least [of len None ms b]
  by (simp add: bestMatch_def)

lemma first_letter: "toLowerCase (charAt0 FindText) = ''a''"
  by (simp add: FindText_def charAt0_def toLowerCase_def toLowerChar_def)

lemma findStartElements_set:
  "s \<in> set (findStartElements es) \<longleftrightarrow>
     (\<exists>e\<in>set es. startsWith (toLowerCase (trim (etext e))) ''a''
        \<and> (\<exists>b. bestMatch (length FindText)
                   (fuzzyLoop (toLowerCase FindText) FindText es e [] []) = Some b
                 \<and> s = m_element b))"
  unfolding findStartElements_def set_sortBy first_letter
  by (auto split: option.splits) metis

lemma anchor_matches:
  "m \<in> set (fuzzyLoop (toLowerCase FindText) FindText es e [] []) \<longleftrightarrow>
     (\<exists>rs. rs \<noteq> [] \<and> hd rs = e \<and> rightChain es rs \<and> length rs \<le> 5
           \<and> labelDistance rs \<le> 2 \<and> m = rankedMatch rs)"
proof -
  have "set (fuzzyLoop (toLowerCase FindText) FindText es e [] [])
          = set [] \<union> {rankedMatch ([] @ c) | c. continues es e [] c}"
    by (rule fuzzyLoop_matches) simp
  then show ?thesis by (auto simp: continues_def)
qed

lemma labelDistance_zero: "labelDistance rs = 0 \<longleftrightarrow> anchorText rs = toLowerCase FindText"
  by (simp add: labelDistance_def editDistance_zero_iff)

subsection \<open>The bounds of the label\<close>

lemma condensed_label: "toLowerCase (condense ''APPLICATION NO:'') = toLowerCase FindText"
  by (simp add: FindText_def toLowerCase_def toLowerChar_def condense_def isSpace_def)

lemma normalizeString_label: "normalizeString (toLowerCase FindText) = normalizeString FindText"
  by (simp add: normalizeString_def FindText_def toLowerCase_def toLowerChar_def trim_def
        isSpace_def)

lemma recordMatch_label:
  "recordMatch (toLowerCase FindText) (toLowerCase FindText) r rs t ms
     = recordMatch (toLowerCase FindText) FindText r rs t ms"
  by (simp add: recordMatch_def matchThreshold_def didYouMean_def normalizeString_label
        length_FindText)

lemma fuzzyLoop_label:
  "fuzzyLoop (toLowerCase FindText) (toLowerCase FindText) es r rs ms
     = fuzzyLoop (toLowerCase FindText) FindText es r rs ms"
proof (induction "toLowerCase FindText" FindText es r rs ms rule: fuzzyLoop.induct)
  case (1 es r rs ms)
  show ?case
    apply (subst fuzzyLoop.simps)
    apply (subst (2) fuzzyLoop.simps)
    apply (simp add: Let_def recordMatch_label length_FindText "1.hyps" split: option.splits)
    done
qed

lemma fuzzyLoop_accumulates:
  "set (fuzzyLoop (toLowerCase FindText) FindText es e [] ms)
     = set ms \<union> set (fuzzyLoop (toLowerCase FindText) FindText es e [] [])"
  using fuzzyLoop_matches [of "[]" es e ms] fuzzyLoop_matches [of "[]" es e "[]"] by simp

lemma bounds_matches:
  "set (foldl (\<lambda>ms e. fuzzyLoop (toLowerCase FindText) FindText es e [] ms) ms0 xs)
     = set ms0 \<union> (\<Union>e\<in>set xs. set (fuzzyLoop (toLowerCase FindText) FindText es e [] []))"
proof (induction xs arbitrary: ms0)
  case Nil
  then show ?case by simp
next
  case (Cons x xs)
  show ?case
    by (simp add: Cons.IH) (use fuzzyLoop_accumulates [of es x ms0] in auto)
qed

lemma f_eq:
  "findTextBounds es ''APPLICATION NO:''
             = (case bestMatch (length (toLowerCase FindText))
                      (foldl (\<lambda>ms e. fuzzyLoop (toLowerCase FindText) FindText es e [] ms) []
                         (filter (\<lambda>e. startsWith (toLowerCase (trim (etext e))) ''a'') es)) of
                  None \<Rightarrow> None
                | Some m \<Rightarrow> (case m_elements m of [] \<Rightarrow> None
                             | e # rest \<Rightarrow> Some (foldl union_rect (rectangle.truncate e) rest)))"
proof -
  have c0: "charAt0 (toLowerCase FindText) = ''a''"
    by (simp add: FindText_def charAt0_def toLowerCase_def toLowerChar_def)
  show ?thesis
    unfolding findTextBounds_def Let_def condensed_label c0 fuzzyLoop_label ..
qed


lemma findTextBounds_label:
  "findTextBounds es ''APPLICATION NO:'' \<noteq> None \<longleftrightarrow>
     (\<exists>e\<in>set es. startsWith (toLowerCase (trim (etext e))) ''a''
        \<and> fuzzyLoop (toLowerCase FindText) FindText es e [] [] \<noteq> [])"
proof -
  define xs where "xs = filter (\<lambda>e. startsWith (toLowerCase (trim (etext e))) ''a'') es"
  define ms where
    "ms = foldl (\<lambda>ms e. fuzzyLoop (toLowerCase FindText) FindText es e [] ms) [] xs"
  have s: "set ms = (\<Union>e\<in>set xs. set (fuzzyLoop (toLowerCase FindText) FindText es e [] []))"
    unfolding ms_def by (simp add: bounds_matches)
  have ne: "m_elements m \<noteq> []" if "m \<in> set ms" for m
  proof -
    from that s obtain e where "m \<in> set (fuzzyLoop (toLowerCase FindText) FindText es e [] [])"
      by auto
    then obtain rs where "rs \<noteq> []" "m = rankedMatch rs" unfolding anchor_matches by blast
    then show ?thesis by (simp add: rankedMatch_def)
  qed
  have f: "findTextBounds es ''APPLICATION NO:''
             = (case bestMatch (length (toLowerCase FindText)) ms of
                  None \<Rightarrow> None
                | Some m \<Rightarrow> (case m_elements m of [] \<Rightarrow> None
                             | e # rest \<Rightarrow> Some (foldl union_rect (rectangle.truncate e) rest)))"
    unfolding ms_def xs_def by (rule f_eq)
  have "findTextBounds es ''APPLICATION NO:'' \<noteq> None \<longleftrightarrow> ms \<noteq> []"
  proof (cases "bestMatch (length (toLowerCase FindText)) ms")
    case None
    then have e: "ms = []" by (simp only: bestMatch_None)
    have n: "findTextBounds es ''APPLICATION NO:'' = None" unfolding f None by simp
    show ?thesis unfolding n e by simp
  next
    case (Some m)
    then have "m \<in> set ms" by (rule bestMatch_mem)
    then have "m_elements m \<noteq> []" and "ms \<noteq> []" using ne by auto
    then have "findTextBounds es ''APPLICATION NO:'' \<noteq> None"
      unfolding f Some by (cases "m_elements m") simp_all
    with \<open>ms \<noteq> []\<close> show ?thesis by simp
  qed
  also have "ms \<noteq> [] \<longleftrightarrow> set ms \<noteq> {}" by simp
  also have "\<dots> \<longleftrightarrow> (\<exists>e\<in>set es. startsWith (toLowerCase (trim (etext e))) ''a''
        \<and> fuzzyLoop (toLowerCase FindText) FindText es e [] [] \<noteq> [])"
    unfolding s xs_def by auto
  finally show ?thesis .
qed

subsection \<open>Renderings of the label\<close>

lemma seven_chain: "rightChain sevenElements sevenElements"
  by (simp add: sevenElements_def el_def geo_defs MAX_VALUE_cmp)

lemma seven_text: "anchorText sevenElements = toLowerCase FindText"
  by (simp add: sevenElements_def el_def anchorText_def text_defs)

lemma seven_start: "findStartElements sevenElements = []"
  by (simp add: findStartElements_def sevenElements_def el_def geo_defs text_defs
        bestMatch_def sortBy_def Let_def fuzzyLoop.simps MAX_VALUE_cmp)

lemma seven_bounds: "findTextBounds sevenElements ''APPLICATION NO:'' = None"
  by (simp add: findTextBounds_def sevenElements_def el_def geo_defs text_defs
        bestMatch_def Let_def fuzzyLoop.simps MAX_VALUE_cmp)

lemma misspelled_start: "findStartElements misspelledElements = []"
  by (simp add: findStartElements_def misspelledElements_def el_def text_defs sortBy_def)

lemma misspelled_bounds: "findTextBounds misspelledElements ''APPLICATION NO:'' = None"
  by (simp add: findTextBounds_def misspelledElements_def el_def text_defs bestMatch_def Let_def)

lemma editDistance_substitute: "editDistance (x # xs) (y # xs) \<le> 1"
proof -
  have "editDistance (x # xs) (y # xs) \<le> editDistance xs xs + (if x = y then 0 else 1)"
    by simp
  then show ?thesis by (simp add: editDistance_refl split: if_splits)
qed

lemma misspelled_distance: "labelDistance [el ''XPPLICATION NO:'' 5 0 80 10] = 1"
proof -
  have t: "anchorText [el ''XPPLICATION NO:'' 5 0 80 10] = CHR ''x'' # ''pplicationno:''"
    by (simp add: el_def anchorText_def text_defs)
  have p: "toLowerCase FindText = CHR ''a'' # ''pplicationno:''"
    by (simp add: text_defs)
  have "editDistance (CHR ''x'' # ''pplicationno:'') (CHR ''a'' # ''pplicationno:'') \<le> 1"
    by (rule editDistance_substitute)
  moreover have "editDistance (CHR ''x'' # ''pplicationno:'') (CHR ''a'' # ''pplicationno:'') \<noteq> 0"
    unfolding editDistance_zero_iff by simp
  ultimately have "editDistance (CHR ''x'' # ''pplicationno:'') (CHR ''a'' # ''pplicationno:'') = 1"
    by linarith
  then show ?thesis unfolding labelDistance_def t p .
qed

lemma stray_distance: "labelDistance strayElements = 1"
proof -
  have "anchorText strayElements = ''applicationno::''"
    by (simp add: strayElements_def el_def anchorText_def text_defs)
  then show ?thesis unfolding labelDistance_def by (simp only: stray_colon_distance)
qed

lemma stray_alone:
  assumes "rs \<noteq> []" "hd rs = el ''APPLICATIONNO::'' 5 0 80 10" "rightChain strayElements rs"
  shows "rs = strayElements"
proof -
  have n: "getRightElement strayElements (el ''APPLICATIONNO::'' 5 0 80 10) = None"
    by (simp add: strayElements_def el_def geo_defs)
  from assms(1,2) obtain c where c: "rs = el ''APPLICATIONNO::'' 5 0 80 10 # c"
    by (cases rs) auto
  show ?thesis
  proof (cases c)
    case Nil
    with c show ?thesis by (simp add: strayElements_def)
  next
    case (Cons f c')
    with c assms(3) n show ?thesis by simp
  qed
qed

text \<open>
  C9, as stated: every sequence of elements rendering the anchor label is matched, with
  rank 0 when its normalized concatenation equals the normalized label, rank 1 within edit
  distance 1 and rank 2 within edit distance 2. Two renderings are not matched at all. The
  seven elements of \<open>sevenElements\<close> are each the right neighbour of the one before and
  their concatenation equals the label, yet the loop stops after five elements:
  \<open>findStartElements\<close> returns no anchor and \<open>findTextBounds\<close> finds nothing. The label of
  \<open>misspelledElements\<close> is at edit distance 1 from the label, yet it does not begin with
  the first letter of the label, so that the loop never starts on it.
\<close>

theorem anchor_rank_counterexample:
  "length sevenElements = 7
   \<and> rightChain sevenElements sevenElements
   \<and> anchorText sevenElements = toLowerCase FindText
   \<and> findStartElements sevenElements = []
   \<and> findTextBounds sevenElements ''APPLICATION NO:'' = None
   \<and> labelDistance [el ''XPPLICATION NO:'' 5 0 80 10] = 1
   \<and> findStartElements misspelledElements = []
   \<and> findTextBounds misspelledElements ''APPLICATION NO:'' = None"
proof -
  have "length sevenElements = 7" by (simp add: sevenElements_def)
  with seven_chain seven_text seven_start seven_bounds misspelled_distance misspelled_start
    misspelled_bounds
  show ?thesis by blast
qed

text \<open>
  C9, amended. For every page \<open>es\<close> and every element \<open>e\<close>, the matches that the loop of
  \<open>findStartElements\<close> records when it starts at \<open>e\<close> are exactly the matches of the
  sequences \<open>rs\<close> of one to five elements that begin with \<open>e\<close>, in which each element is the
  right neighbour of the one before, and whose normalized concatenation is within edit
  distance 2 of the normalized label: a sequence at distance 3 or more, or of more than
  five elements, yields no match. The rank of the match of \<open>rs\<close> is that distance, and its
  element is the last of \<open>rs\<close>; the distance is 0 exactly when the concatenation equals the
  label. The best match of \<open>e\<close> is one of the recorded matches and no recorded match has a
  lower rank; there is none only when nothing was recorded. The anchors that
  \<open>findStartElements\<close> returns are the elements of the best matches of the elements whose
  trimmed text begins with the first letter of the label, in either case; and
  \<open>findTextBounds\<close> finds the label exactly when the loop records a match from some such
  element.
\<close>

theorem anchor_rank:
  "(m \<in> set (fuzzyLoop (toLowerCase FindText) FindText es e [] []) \<longleftrightarrow>
      (\<exists>rs. rs \<noteq> [] \<and> hd rs = e \<and> rightChain es rs \<and> length rs \<le> 5
            \<and> labelDistance rs \<le> 2 \<and> m = rankedMatch rs))
   \<and> (threshold (rankedMatch rs) = labelDistance rs \<and> m_element (rankedMatch rs) = last rs)
   \<and> (labelDistance rs = 0 \<longleftrightarrow> anchorText rs = toLowerCase FindText)
   \<and> (case bestMatch (length FindText) (fuzzyLoop (toLowerCase FindText) FindText es e [] []) of
        None \<Rightarrow> fuzzyLoop (toLowerCase FindText) FindText es e [] [] = []
      | Some b \<Rightarrow> b \<in> set (fuzzyLoop (toLowerCase FindText) FindText es e [] [])
                 \<and> list_all (\<lambda>m. threshold b \<le> threshold m)
                      (fuzzyLoop (toLowerCase FindText) FindText es e [] []))
   \<and> (s \<in> set (findStartElements es) \<longleftrightarrow>
        (\<exists>e'\<in>set es. startsWith (toLowerCase (trim (etext e'))) ''a''
           \<and> (\<exists>b. bestMatch (length FindText)
                      (fuzzyLoop (toLowerCase FindText) FindText es e' [] []) = Some b
                    \<and> s = m_element b)))
   \<and> (findTextBounds es ''APPLICATION NO:'' \<noteq> None \<longleftrightarrow>
        (\<exists>e'\<in>set es. startsWith (toLowerCase (trim (etext e'))) ''a''
           \<and> fuzzyLoop (toLowerCase FindText) FindText es e' [] [] \<noteq> []))"
proof -
  have "case bestMatch (length FindText) (fuzzyLoop (toLowerCase FindText) FindText es e [] []) of
        None \<Rightarrow> fuzzyLoop (toLowerCase FindText) FindText es e [] [] = []
      | Some b \<Rightarrow> b \<in> set (fuzzyLoop (toLowerCase FindText) FindText es e [] [])
                 \<and> list_all (\<lambda>m. threshold b \<le> threshold m)
                      (fuzzyLoop (toLowerCase FindText) FindText es e [] [])"
    using bestMatch_None bestMatch_least by (auto split: option.splits)
  moreover have "threshold (rankedMatch rs) = labelDistance rs
      \<and> m_element (rankedMatch rs) = last rs"
    by (simp add: rankedMatch_def)
  ultimately show ?thesis
    using anchor_matches labelDistance_zero findStartElements_set findTextBounds_label
    by blast
qed

text \<open>
  The label with a stray colon, alone on its page: its match has rank 1, it is an anchor,
  and the label is found.
\<close>

theorem anchor_rank_witness:
  "labelDistance strayElements = 1
   \<and> rankedMatch strayElements
        \<in> set (fuzzyLoop (toLowerCase FindText) FindText strayElements
                 (el ''APPLICATIONNO::'' 5 0 80 10) [] [])
   \<and> threshold (rankedMatch strayElements) = 1
   \<and> el ''APPLICATIONNO::'' 5 0 80 10 \<in> set (findStartElements strayElements)
   \<and> findTextBounds strayElements ''APPLICATION NO:'' \<noteq> None"
proof -
  let ?e = "el ''APPLICATIONNO::'' 5 0 80 10"
  let ?ms = "fuzzyLoop (toLowerCase FindText) FindText strayElements ?e [] []"
  note t = anchor_rank [where es = strayElements and e = ?e and rs = strayElements and s = ?e]
  have p1: "m \<in> set ?ms \<longleftrightarrow>
      (\<exists>rs. rs \<noteq> [] \<and> hd rs = ?e \<and> rightChain strayElements rs \<and> length rs \<le> 5
            \<and> labelDistance rs \<le> 2 \<and> m = rankedMatch rs)" for m
    using t [of m] by (rule conjunct1)
  have p3: "case bestMatch (length FindText) ?ms of
        None \<Rightarrow> ?ms = []
      | Some b \<Rightarrow> b \<in> set ?ms \<and> list_all (\<lambda>m. threshold b \<le> threshold m) ?ms"
    using t [of undefined] by (elim conjE)
  have p4: "?e \<in> set (findStartElements strayElements) \<longleftrightarrow>
        (\<exists>e'\<in>set strayElements. startsWith (toLowerCase (trim (etext e'))) ''a''
           \<and> (\<exists>b. bestMatch (length FindText)
                      (fuzzyLoop (toLowerCase FindText) FindText strayElements e' [] []) = Some b
                    \<and> ?e = m_element b))"
    using t [of undefined] by (elim conjE)
  have p5: "findTextBounds strayElements ''APPLICATION NO:'' \<noteq> None \<longleftrightarrow>
        (\<exists>e'\<in>set strayElements. startsWith (toLowerCase (trim (etext e'))) ''a''
           \<and> fuzzyLoop (toLowerCase FindText) FindText strayElements e' [] [] \<noteq> [])"
    using t [of undefined] by (elim conjE)
  have chain: "strayElements \<noteq> []" "hd strayElements = ?e"
    "rightChain strayElements strayElements" "length strayElements \<le> 5"
    by (simp_all add: strayElements_def)
  have "\<exists>rs. rs \<noteq> [] \<and> hd rs = ?e \<and> rightChain strayElements rs \<and> length rs \<le> 5
            \<and> labelDistance rs \<le> 2 \<and> rankedMatch strayElements = rankedMatch rs"
    using chain stray_distance by (intro exI [of _ strayElements]) simp
  then have mem: "rankedMatch strayElements \<in> set ?ms" by (simp only: p1)
  have thr: "threshold (rankedMatch strayElements) = 1"
    by (simp add: rankedMatch_def stray_distance)
  have first: "startsWith (toLowerCase (trim (etext ?e))) ''a''" "?e \<in> set strayElements"
    by (simp_all add: strayElements_def el_def text_defs)
  from mem have ne: "?ms \<noteq> []" by auto
  with p3 obtain b where b: "bestMatch (length FindText) ?ms = Some b" and bm: "b \<in> set ?ms"
    by (cases "bestMatch (length FindText) ?ms") auto
  from bm obtain rs where rs: "rs \<noteq> []" "hd rs = ?e" "rightChain strayElements rs"
    "b = rankedMatch rs" unfolding p1 by blast
  from rs(1-3) have "rs = strayElements" by (rule stray_alone)
  with rs(4) have "?e = m_element b" by (simp add: rankedMatch_def strayElements_def)
  with b first have start: "?e \<in> set (findStartElements strayElements)"
    unfolding p4 by blast
  from ne first have "findTextBounds strayElements ''APPLICATION NO:'' \<noteq> None"
    unfolding p5 by blast
  with stray_distance mem thr start show ?thesis by blast
qed

section \<open>The cells of a ruled grid\<close>



lemma ruled_pos: "ruled g \<Longrightarrow> 0 < xstep g \<and> 0 < ystep g \<and> 3 < xstep g \<and> 3 < ystep g"
  by (simp add: ruled_def Tolerance_def)

subsection \<open>Classification and sorting\<close>










subsection \<open>The points of the lattice\<close>


lemma step_apart:
  fixes d :: real
  assumes "3 < d" and "j \<noteq> (j'::nat)"
  shows "3 < \<bar>(a + real j * d) - (a + real j' * d)\<bar>"
proof -
  have "(a + real j * d) - (a + real j' * d) = (real j - real j') * d" by (simp add: algebra_simps)
  moreover have "1 \<le> \<bar>real j - real j'\<bar>" using assms(2) by linarith
  then have "d \<le> \<bar>real j - real j'\<bar> * d" using assms(1) by (simp add: mult_le_cancel_right1)
  then have "d \<le> \<bar>(real j - real j') * d\<bar>" using assms(1) by (simp add: abs_mult)
  ultimately show ?thesis using assms(1) by linarith
qed












subsection \<open>Neighbours and cells\<close>





lemma same_row:
  assumes "ruled g" "\<bar>py (pt g j' i') - py (pt g j i)\<bar> < Tolerance"
  shows "i' = i"
proof (rule ccontr)
  assume "i' \<noteq> i"
  moreover from assms(1) have "3 < ystep g" using ruled_pos by blast
  ultimately have "3 < \<bar>(bottom g + real i' * ystep g) - (bottom g + real i * ystep g)\<bar>"
    by (intro step_apart)
  moreover have "py (pt g j' i') - py (pt g j i)
                   = (bottom g + real i' * ystep g) - (bottom g + real i * ystep g)"
    by (simp add: pt_def)
  ultimately show False using assms(2) by (simp add: Tolerance_def)
qed

lemma same_column:
  assumes "ruled g" "\<bar>px (pt g j' i') - px (pt g j i)\<bar> < Tolerance"
  shows "j' = j"
proof (rule ccontr)
  assume "j' \<noteq> j"
  moreover from assms(1) have "3 < xstep g" using ruled_pos by blast
  ultimately have "3 < \<bar>(left g + real j' * xstep g) - (left g + real j * xstep g)\<bar>"
    by (intro step_apart)
  moreover have "px (pt g j' i') - px (pt g j i)
                   = (left g + real j' * xstep g) - (left g + real j * xstep g)"
    by (simp add: pt_def)
  ultimately show False using assms(2) by (simp add: Tolerance_def)
qed













end
